theory Spec2Isabelle
  imports Complex_Main
begin

section \<open>Python values used by app.py\<close>

text \<open>
  A Python \<open>str\<close> is a sequence of Unicode code points, so slicing and \<open>strip\<close> count
  code points, not bytes. ASCII literals of the script are written through \<open>ustr\<close>; the
  other characters of its literals are given by their code point.
\<close>

type_synonym pystr = "nat list"

definition ustr :: "string \<Rightarrow> pystr" where
  "ustr s = map of_char s"

text \<open>\<open>str.isspace\<close> on one code point: the white space that \<open>str.strip()\<close> removes.\<close>

definition py_isspace :: "nat \<Rightarrow> bool" where
  "py_isspace c \<longleftrightarrow>
     (9 \<le> c \<and> c \<le> 13) \<or> (28 \<le> c \<and> c \<le> 32) \<or> c = 133 \<or> c = 160 \<or> c = 5760 \<or>
     (8192 \<le> c \<and> c \<le> 8202) \<or> c = 8232 \<or> c = 8233 \<or> c = 8239 \<or> c = 8287 \<or> c = 12288"

definition strip :: "pystr \<Rightarrow> pystr" where
  "strip s = rev (dropWhile py_isspace (rev (dropWhile py_isspace s)))"

text \<open>A dict with string keys and values; \<open>d.get(k, default)\<close>.\<close>

type_synonym pydict = "pystr \<rightharpoonup> pystr"

definition dict_get :: "pydict \<Rightarrow> pystr \<Rightarrow> pystr \<Rightarrow> pystr" where
  "dict_get d k dflt = (case d k of None \<Rightarrow> dflt | Some v \<Rightarrow> v)"

text \<open>
  An exception object, with its class name and message. \<open>Exception c m\<close> is an instance of
  a subclass of \<open>Exception\<close>; \<open>BaseException c m\<close> is an instance of a class outside
  \<open>Exception\<close> (\<open>KeyboardInterrupt\<close>, \<open>SystemExit\<close>, the UI framework's script-control
  exceptions), which \<open>except Exception\<close> does not catch.
\<close>

datatype exn = Exception pystr pystr | BaseException pystr pystr

fun isinstance_Exception :: "exn \<Rightarrow> bool" where
  "isinstance_Exception (Exception c m) = True"
| "isinstance_Exception (BaseException c m) = False"

text \<open>Truth value of \<open>user_query\<close> in \<open>if user_query:\<close>; \<open>None\<close> and the empty string are false.\<close>

fun truthy :: "pystr option \<Rightarrow> bool" where
  "truthy None = False"
| "truthy (Some s) = (s \<noteq> [])"

section \<open>Library objects\<close>

text \<open>
  The objects of the external libraries are represented by the arguments the script
  constructs them from; what the libraries compute with them is a parameter
  (\<open>lib\<close> below).
\<close>

record document =
  page_content :: pystr
  metadata :: pydict

record embeddings =
  model_name :: pystr

record vectorstore =
  vs_docs :: "document list"
  vs_embedding :: embeddings

record retriever =
  vectordb :: vectorstore
  search_type :: pystr
  search_k :: nat
  search_fetch_k :: nat

record llm =
  llm_model :: pystr
  temperature :: rat
  convert_system_message_to_human :: bool

record memory =
  mem_llm :: llm
  memory_key :: pystr
  return_messages :: bool
  mem_output_key :: pystr

record prompt_template =
  input_variables :: "pystr list"
  template :: pystr

record chain =
  chain_llm :: llm
  chain_retriever :: retriever
  chain_memory :: memory
  return_source_documents :: bool
  combine_docs_prompt :: prompt_template
  chain_output_key :: pystr
  verbose :: bool

text \<open>
  The dict a chain call returns: \<open>result["answer"]\<close> raises \<open>KeyError\<close> when the key is
  absent, \<open>result.get("source_documents", [])\<close> gives the empty list.
\<close>

record chain_result =
  answer :: "pystr option"
  source_documents :: "document list option"

section \<open>Inputs, persistent state and effects of one script run\<close>

text \<open>
  The UI framework runs the script from top to bottom on every interaction of the user.
  What survives from one run to the next: the process environment, the resource cache
  of \<open>load_vector_store\<close>, and the \<open>chat_history\<close> entry of the session state (\<open>None\<close>
  when the key is absent). Every other object of the script is rebuilt by each run.
\<close>

type_synonym history = "(pystr \<times> pystr) list"

record state =
  environ :: pydict
  cache :: "retriever option"
  chat_history :: "history option"

text \<open>
  A value of the secrets: a string, or a value of another type (given by the name of
  its type), which \<open>os.environ\<close> refuses with \<open>TypeError\<close>. The strings are those an
  environment variable can hold: a string with a NUL character, which \<open>os.environ\<close>
  refuses with \<open>ValueError\<close>, is not among the inputs considered.
\<close>

datatype pyval = PyStr pystr | PyOther pystr

text \<open>
  What a run reads. \<open>st_secrets env\<close> is the outcome of the first access to
  \<open>st.secrets\<close> (line 20) in the process environment \<open>env\<close>: the framework raises when it
  finds no secrets file or cannot parse it; otherwise it gives the entries, and the
  process environment as the framework leaves it (it exports root-level entries to
  environment variables when it loads the file). \<open>open_read p\<close> is the outcome of
  opening \<open>p\<close> for reading as UTF-8 text and reading it whole.
\<close>

record env =
  st_secrets :: "pydict \<Rightarrow> exn + ((pystr \<rightharpoonup> pyval) \<times> pydict)"
  open_read :: "pystr \<Rightarrow> exn + pystr"

text \<open>
  The calls a run makes into the UI framework and the libraries, in program order. A
  call that raises is part of the trace; a container (\<open>with st.chat_message(...)\<close>,
  \<open>with st.expander(...)\<close>, \<open>with st.spinner(...)\<close>) holds the calls made inside it.
\<close>

datatype event =
    SetPageConfig pystr pystr pystr
  | SetEnviron pystr pystr
  | StError pystr
  | StStop
  | CacheSpinner pystr "event list"
  | NewEmbeddings embeddings
  | OpenRead pystr pystr pystr
  | SplitText nat nat pystr
  | FaissFromDocuments "document list" embeddings
  | NewLLM llm
  | StTitle pystr
  | StMarkdown pystr
  | StChatInput pystr
  | ChatMessage pystr pystr "event list"
  | Spinner pystr "event list"
  | CallChain chain pystr
  | Expander pystr bool "event list"
  | StCode pystr pystr
  | StException exn

datatype outcome = Completed | Stopped | Uncaught exn

record run =
  outcome :: outcome
  trace :: "event list"
  final :: state

text \<open>
  What the UI framework and the external libraries do, as functions of what they are
  given. Every \<open>st.*\<close> call may raise (\<open>st_call\<close>; entering a container is the call of
  the container with nothing inside). The constructors that load a model or reach the
  network, and the chain, may raise; they are given the files and secrets and the
  process environment, which library code is free to read.
\<close>

record lib =
  st_call :: "event \<Rightarrow> exn option"
  HuggingFaceEmbeddings_init :: "env \<Rightarrow> pydict \<Rightarrow> embeddings \<Rightarrow> exn option"
  split_text :: "nat \<Rightarrow> nat \<Rightarrow> pystr \<Rightarrow> pystr list"
  FAISS_from_documents :: "env \<Rightarrow> pydict \<Rightarrow> document list \<Rightarrow> embeddings \<Rightarrow> exn option"
  ChatGoogleGenerativeAI_init :: "env \<Rightarrow> pydict \<Rightarrow> llm \<Rightarrow> exn option"
  chain_call :: "env \<Rightarrow> pydict \<Rightarrow> chain \<Rightarrow> pystr \<Rightarrow> exn + chain_result"

section \<open>The script\<close>

subsection \<open>Calls of the UI framework\<close>

text \<open>
  A sequence of \<open>st.*\<close> calls is made in order until one raises; the result is the
  exception, if any, and the calls made.
\<close>

fun perform :: "lib \<Rightarrow> event list \<Rightarrow> exn option \<times> event list" where
  "perform L [] = (None, [])"
| "perform L (ev # evs) =
     (case st_call L ev of
        Some e \<Rightarrow> (Some e, [ev])
      | None \<Rightarrow> (case perform L evs of (x, made) \<Rightarrow> (x, ev # made)))"

text \<open>
  \<open>with container: body\<close>: the container is entered, then the calls of the body are
  made inside it; an exception of either leaves the \<open>with\<close>.
\<close>

definition st_with :: "lib \<Rightarrow> (event list \<Rightarrow> event) \<Rightarrow> event list \<Rightarrow> exn option \<times> event" where
  "st_with L container body =
     (case st_call L (container []) of
        Some e \<Rightarrow> (Some e, container [])
      | None \<Rightarrow> (case perform L body of (x, made) \<Rightarrow> (x, container made)))"

subsection \<open>Building the vector store (lines 29-48)\<close>

definition handbook_path :: pystr where
  "handbook_path = ustr ''data/handbook_cleaned_FULL.txt''"

definition load_vector_store :: "lib \<Rightarrow> env \<Rightarrow> pydict \<Rightarrow> (exn + retriever) \<times> event list" where
  "load_vector_store L E os_environ =
     (let embedding = \<lparr>model_name = ustr ''all-MiniLM-L6-v2''\<rparr>;
          ev1 = [NewEmbeddings embedding]
      in case HuggingFaceEmbeddings_init L E os_environ embedding of
           Some e \<Rightarrow> (Inl e, ev1)
         | None \<Rightarrow>
             (let ev2 = ev1 @ [OpenRead handbook_path (ustr ''r'') (ustr ''utf-8'')]
              in case open_read E handbook_path of
                   Inl e \<Rightarrow> (Inl e, ev2)
                 | Inr raw_text \<Rightarrow>
                     (let docs = map (\<lambda>chunk. \<lparr>page_content = chunk, metadata = Map.empty\<rparr>)
                                   (split_text L 500 60 raw_text);
                          ev3 = ev2 @ [SplitText 500 60 raw_text, FaissFromDocuments docs embedding]
                      in case FAISS_from_documents L E os_environ docs embedding of
                           Some e \<Rightarrow> (Inl e, ev3)
                         | None \<Rightarrow>
                             (Inr \<lparr>vectordb = \<lparr>vs_docs = docs, vs_embedding = embedding\<rparr>,
                                   search_type = ustr ''mmr'', search_k = 8, search_fetch_k = 18\<rparr>,
                              ev3))))"

text \<open>
  \<open>@st.cache_resource(show_spinner="Building vector DB...")\<close>: a cached value is returned
  without running the body; otherwise the body runs under the spinner and its value is
  stored. An exception of the body is not stored and propagates.
\<close>

definition cached_load_vector_store ::
    "lib \<Rightarrow> env \<Rightarrow> pydict \<Rightarrow> retriever option \<Rightarrow> (exn + retriever) \<times> event list \<times> retriever option" where
  "cached_load_vector_store L E os_environ c =
     (case c of
        Some r \<Rightarrow> (Inr r, [], c)
      | None \<Rightarrow>
          (case load_vector_store L E os_environ of
             (Inl e, evs) \<Rightarrow> (Inl e, [CacheSpinner (ustr ''Building vector DB...'') evs], None)
           | (Inr r, evs) \<Rightarrow> (Inr r, [CacheSpinner (ustr ''Building vector DB...'') evs], Some r)))"

subsection \<open>Model, memory, prompt and chain (lines 53-100)\<close>

definition gemini_llm :: llm where
  "gemini_llm = \<lparr>llm_model = ustr ''gemini-1.5-flash'', temperature = 3 / 10,
                  convert_system_message_to_human = True\<rparr>"

definition memory :: memory where
  "memory = \<lparr>mem_llm = gemini_llm, memory_key = ustr ''chat_history'',
              return_messages = True, mem_output_key = ustr ''answer''\<rparr>"

definition prompt :: prompt_template where
  "prompt = \<lparr>input_variables = [ustr ''context'', ustr ''question''],
     template =
       [10] @ ustr ''You are an expert assistant trained on GitLab's official Handbook and Direction documents.''
       @ [10, 10] @ ustr ''Please:''
       @ [10] @ ustr ''- Answer with as much useful detail as possible.''
       @ [10] @ ustr ''- Use bullet points or formatting if appropriate.''
       @ [10] @ ustr ''- Cite the source section when available.''
       @ [10] @ ustr ''- Only answer from GitLab materials. Politely decline anything off-topic.''
       @ [10, 10] @ ustr ''Context:''
       @ [10] @ ustr ''{context}''
       @ [10, 10] @ ustr ''Question:''
       @ [10] @ ustr ''{question}'' @ [10]\<rparr>"

definition qa_chain :: "retriever \<Rightarrow> chain" where
  "qa_chain retriever =
     \<lparr>chain_llm = gemini_llm, chain_retriever = retriever, chain_memory = memory,
      return_source_documents = True, combine_docs_prompt = prompt,
      chain_output_key = ustr ''answer'', verbose = False\<rparr>"

subsection \<open>Page configuration, API key, vector store and model (lines 1-57)\<close>

definition api_key :: pystr where
  "api_key = ustr ''GOOGLE_API_KEY''"

definition page_config :: event where
  "page_config = SetPageConfig (ustr ''GitLab GenAI Chatbot'') [129302] (ustr ''wide'')"

definition key_missing :: pystr where
  "key_missing = ustr ''Google API Key not found. Please add it to Streamlit secrets.''"

text \<open>
  The part of a run before the page is written: it ends the run (\<open>Inl\<close>), or gives the
  retriever, the calls made and the state so far (\<open>Inr\<close>). Line 20 raises what the
  access to the secrets raises; line 21 raises \<open>TypeError\<close> when the entry is not a
  string; \<open>st.stop()\<close> ends the run.
\<close>

definition startup :: "lib \<Rightarrow> env \<Rightarrow> state \<Rightarrow> run + (retriever \<times> event list \<times> state)" where
  "startup L E S =
     (case st_call L page_config of
        Some e \<Rightarrow> Inl \<lparr>outcome = Uncaught e, trace = [page_config], final = S\<rparr>
      | None \<Rightarrow>
     (case st_secrets E (environ S) of
        Inl e \<Rightarrow> Inl \<lparr>outcome = Uncaught e, trace = [page_config], final = S\<rparr>
      | Inr (secrets, env1) \<Rightarrow>
     (case secrets api_key of
        None \<Rightarrow>
          (case st_call L (StError key_missing) of
             Some e \<Rightarrow>
               Inl \<lparr>outcome = Uncaught e, trace = [page_config, StError key_missing],
                    final = S\<lparr>environ := env1\<rparr>\<rparr>
           | None \<Rightarrow>
               Inl \<lparr>outcome = Stopped, trace = [page_config, StError key_missing, StStop],
                    final = S\<lparr>environ := env1\<rparr>\<rparr>)
      | Some (PyOther t) \<Rightarrow>
          Inl \<lparr>outcome = Uncaught (Exception (ustr ''TypeError'') (ustr ''str expected, not '' @ t)),
               trace = [page_config], final = S\<lparr>environ := env1\<rparr>\<rparr>
      | Some (PyStr key) \<Rightarrow>
          (let env' = env1(api_key \<mapsto> key);
               ev1 = [page_config, SetEnviron api_key key]
           in case cached_load_vector_store L E env' (cache S) of
                (Inl e, evs, c) \<Rightarrow>
                  Inl \<lparr>outcome = Uncaught e, trace = ev1 @ evs,
                       final = S\<lparr>environ := env', cache := c\<rparr>\<rparr>
              | (Inr retriever, evs, c) \<Rightarrow>
                  (case ChatGoogleGenerativeAI_init L E env' gemini_llm of
                     Some e \<Rightarrow>
                       Inl \<lparr>outcome = Uncaught e, trace = ev1 @ evs @ [NewLLM gemini_llm],
                            final = S\<lparr>environ := env', cache := c\<rparr>\<rparr>
                   | None \<Rightarrow>
                       Inr (retriever, ev1 @ evs @ [NewLLM gemini_llm],
                            S\<lparr>environ := env', cache := c\<rparr>))))))"

subsection \<open>The chat page (lines 105-150)\<close>

definition user_message :: "pystr \<Rightarrow> event" where
  "user_message msg = ChatMessage (ustr ''user'') [129489] [StMarkdown msg]"

definition assistant_message :: "pystr \<Rightarrow> event" where
  "assistant_message msg = ChatMessage (ustr ''assistant'') [129302] [StMarkdown msg]"

text \<open>\<open>with st.chat_message(role, avatar=...): st.markdown(msg)\<close>.\<close>

definition say_user :: "lib \<Rightarrow> pystr \<Rightarrow> exn option \<times> event" where
  "say_user L msg = st_with L (ChatMessage (ustr ''user'') [129489]) [StMarkdown msg]"

definition say_assistant :: "lib \<Rightarrow> pystr \<Rightarrow> exn option \<times> event" where
  "say_assistant L msg = st_with L (ChatMessage (ustr ''assistant'') [129302]) [StMarkdown msg]"

text \<open>
  Lines 121-125: the stored conversation is displayed again by every run. \<open>replay\<close> is
  what is displayed when no call raises; \<open>replay_run\<close> makes the calls.
\<close>

fun replay :: "history \<Rightarrow> event list" where
  "replay [] = []"
| "replay ((user_msg, bot_msg) # rest) =
     user_message user_msg # assistant_message bot_msg # replay rest"

fun replay_run :: "lib \<Rightarrow> history \<Rightarrow> exn option \<times> event list" where
  "replay_run L [] = (None, [])"
| "replay_run L ((user_msg, bot_msg) # rest) =
     (case say_user L user_msg of
        (Some e, u) \<Rightarrow> (Some e, [u])
      | (None, u) \<Rightarrow>
          (case say_assistant L bot_msg of
             (Some e, b) \<Rightarrow> (Some e, [u, b])
           | (None, b) \<Rightarrow> (case replay_run L rest of (x, made) \<Rightarrow> (x, u # b # made))))"

text \<open>Lines 141-144: the two elements displayed for one source document.\<close>

definition source_header :: "document \<Rightarrow> pystr" where
  "source_header doc =
     ustr ''**'' @ dict_get (metadata doc) (ustr ''source'') (ustr ''Unknown'')
     @ ustr '' '' @ [8594] @ ustr ''** `''
     @ dict_get (metadata doc) (ustr ''section'') (ustr ''N/A'') @ ustr ''`''"

definition source_code :: "document \<Rightarrow> pystr" where
  "source_code doc = take 700 (strip (page_content doc)) @ ustr ''...''"

fun show_sources :: "document list \<Rightarrow> event list" where
  "show_sources [] = []"
| "show_sources (doc # rest) =
     StMarkdown (source_header doc) # StCode (source_code doc) (ustr ''markdown'')
       # show_sources rest"

definition sources_label :: pystr where
  "sources_label = [128218] @ ustr '' Sources & Reasoning''"

definition thinking :: pystr where
  "thinking = [129302] @ ustr '' Thinking... generating response...''"

text \<open>
  Lines 133-146, the body of the \<open>try\<close>, statement by statement: the spinner is entered,
  the chain is called and the answer looked up; the answer is displayed; the expander
  is entered and the sources are displayed; last, the pair is appended to the history.
  The result is the new history, or the exception that ended the body, with the calls
  made. The source documents are \<open>Document\<close> objects of the library, so reading their
  attributes does not raise.
\<close>

definition try_body ::
    "lib \<Rightarrow> env \<Rightarrow> pydict \<Rightarrow> chain \<Rightarrow> history \<Rightarrow> pystr \<Rightarrow> (exn + history) \<times> event list" where
  "try_body L E os_environ qa h user_query =
     (case st_call L (Spinner thinking []) of
        Some e \<Rightarrow> (Inl e, [Spinner thinking []])
      | None \<Rightarrow>
     (case chain_call L E os_environ qa user_query of
        Inl e \<Rightarrow> (Inl e, [Spinner thinking [CallChain qa user_query]])
      | Inr result \<Rightarrow>
     (case answer result of
        None \<Rightarrow> (Inl (Exception (ustr ''KeyError'') (ustr ''answer'')),
                  [Spinner thinking [CallChain qa user_query]])
      | Some response \<Rightarrow>
     (case say_assistant L response of
        (Some e, a) \<Rightarrow> (Inl e, [Spinner thinking [CallChain qa user_query], a])
      | (None, a) \<Rightarrow>
     (case st_with L (Expander sources_label False)
             (show_sources (case source_documents result of None \<Rightarrow> [] | Some ds \<Rightarrow> ds)) of
        (Some e, x) \<Rightarrow> (Inl e, [Spinner thinking [CallChain qa user_query], a, x])
      | (None, x) \<Rightarrow>
          (Inr (h @ [(user_query, response)]),
           [Spinner thinking [CallChain qa user_query], a, x]))))))"

definition generic_error :: pystr where
  "generic_error = [9888, 65039] @ ustr '' Something went wrong while generating the answer.''"

text \<open>
  Lines 128-150: a new query. The query is displayed, then the \<open>try\<close> runs; its
  \<open>except Exception\<close> displays the generic message and the exception. An exception that
  is not an instance of \<open>Exception\<close>, or one raised outside the \<open>try\<close>, leaves the script.
\<close>

definition new_query ::
    "lib \<Rightarrow> env \<Rightarrow> pydict \<Rightarrow> chain \<Rightarrow> history \<Rightarrow> pystr option \<Rightarrow> outcome \<times> event list \<times> history" where
  "new_query L E os_environ qa h user_query =
     (if truthy user_query then
        (case say_user L (the user_query) of
           (Some e, u) \<Rightarrow> (Uncaught e, [u], h)
         | (None, u) \<Rightarrow>
        (case try_body L E os_environ qa h (the user_query) of
           (Inr h', evs) \<Rightarrow> (Completed, u # evs, h')
         | (Inl e, evs) \<Rightarrow>
             (if isinstance_Exception e
              then (case perform L [StError generic_error, StException e] of
                      (Some e', made) \<Rightarrow> (Uncaught e', u # evs @ made, h)
                    | (None, made) \<Rightarrow> (Completed, u # evs @ made, h))
              else (Uncaught e, u # evs, h))))
      else (Completed, [], h))"

definition welcome_text :: pystr where
  "welcome_text =
     [10] @ ustr ''Welcome! This GenAI assistant helps GitLab team members and future employees learn about:''
     @ [10] @ ustr ''- '' @ [128216] @ ustr '' GitLab's Handbook (culture, engineering, async, etc.)''
     @ [10] @ ustr ''- '' @ [129517] @ ustr '' GitLab's Product Direction (strategy, themes, FY25+)''
     @ [10, 10] @ ustr ''Just ask your question below and the chatbot will find answers from official GitLab docs.''
     @ [10]"

definition page_title :: "event list" where
  "page_title =
     [StTitle ([129302] @ ustr '' GitLab Handbook & Direction AI Chatbot''),
      StMarkdown welcome_text]"

definition chat_input :: event where
  "chat_input = StChatInput (ustr ''Ask me anything about GitLab... '' @ [10024])"

text \<open>Lines 115-116: an absent \<open>chat_history\<close> is set to the empty list.\<close>

fun init_history :: "history option \<Rightarrow> history" where
  "init_history None = []"
| "init_history (Some h) = h"

text \<open>
  Lines 105-125: title and welcome text, the session state, the chat input, the replay.
  The result is the exception, if any, the calls made, and the \<open>chat_history\<close> entry.
\<close>

definition page_top :: "lib \<Rightarrow> history option \<Rightarrow> exn option \<times> event list \<times> history option" where
  "page_top L ch =
     (case perform L page_title of
        (Some e, made) \<Rightarrow> (Some e, made, ch)
      | (None, made) \<Rightarrow>
     (case st_call L chat_input of
        Some e \<Rightarrow> (Some e, made @ [chat_input], Some (init_history ch))
      | None \<Rightarrow>
     (case replay_run L (init_history ch) of
        (x, made') \<Rightarrow> (x, made @ [chat_input] @ made', Some (init_history ch)))))"

text \<open>Lines 105-150.\<close>

definition chat_page ::
    "lib \<Rightarrow> env \<Rightarrow> pydict \<Rightarrow> chain \<Rightarrow> history option \<Rightarrow> pystr option
       \<Rightarrow> outcome \<times> event list \<times> history option" where
  "chat_page L E os_environ qa ch user_query =
     (case page_top L ch of
        (Some e, evs, ch') \<Rightarrow> (Uncaught e, evs, ch')
      | (None, evs, ch') \<Rightarrow>
          (case new_query L E os_environ qa (init_history ch) user_query of
             (out, evs', h') \<Rightarrow> (out, evs @ evs', Some h')))"

subsection \<open>One run of the script (lines 1-150)\<close>

definition script :: "lib \<Rightarrow> env \<Rightarrow> state \<Rightarrow> pystr option \<Rightarrow> run" where
  "script L E S user_query =
     (case startup L E S of
        Inl r \<Rightarrow> r
      | Inr (retriever, evs, S') \<Rightarrow>
          (case chat_page L E (environ S') (qa_chain retriever) (chat_history S') user_query of
             (out, evs', ch') \<Rightarrow>
               \<lparr>outcome = out, trace = evs @ evs', final = S'\<lparr>chat_history := ch'\<rparr>\<rparr>))"

subsection \<open>Sessions\<close>

text \<open>
  One run per interaction: each run starts from the state the previous run left.
\<close>

fun session :: "lib \<Rightarrow> env \<Rightarrow> state \<Rightarrow> pystr option list \<Rightarrow> run list" where
  "session L E S [] = []"
| "session L E S (uq # rest) = script L E S uq # session L E (final (script L E S uq)) rest"

subsection \<open>Reading a trace\<close>

text \<open>The messages of all \<open>st.error\<close> calls, and the arguments of all calls of the chain, at any depth.\<close>

fun shown_errors :: "event \<Rightarrow> pystr list" where
  "shown_errors (StError m) = [m]"
| "shown_errors (CacheSpinner l evs) = concat (map shown_errors evs)"
| "shown_errors (ChatMessage r a evs) = concat (map shown_errors evs)"
| "shown_errors (Spinner l evs) = concat (map shown_errors evs)"
| "shown_errors (Expander l b evs) = concat (map shown_errors evs)"
| "shown_errors _ = []"

fun chain_calls :: "event \<Rightarrow> (chain \<times> pystr) list" where
  "chain_calls (CallChain qa question) = [(qa, question)]"
| "chain_calls (CacheSpinner l evs) = concat (map chain_calls evs)"
| "chain_calls (ChatMessage r a evs) = concat (map chain_calls evs)"
| "chain_calls (Spinner l evs) = concat (map chain_calls evs)"
| "chain_calls (Expander l b evs) = concat (map chain_calls evs)"
| "chain_calls _ = []"

definition errors_of :: "run \<Rightarrow> pystr list" where
  "errors_of r = concat (map shown_errors (trace r))"

definition calls_of :: "run \<Rightarrow> (chain \<times> pystr) list" where
  "calls_of r = concat (map chain_calls (trace r))"

section \<open>A sample library, environment and state\<close>

text \<open>
  A framework and library whose calls all succeed, whose splitter returns the text as
  one chunk and whose chain answers with a fixed sentence and all stored documents as
  sources; secrets with the key and a file system with the handbook; a state with a
  filled cache.
\<close>

definition demo_docs :: "document list" where
  "demo_docs = [\<lparr>page_content = ustr ''  Values of the handbook '', metadata = Map.empty\<rparr>]"

definition demo_retriever :: retriever where
  "demo_retriever = \<lparr>vectordb = \<lparr>vs_docs = demo_docs, vs_embedding = \<lparr>model_name = ustr ''all-MiniLM-L6-v2''\<rparr>\<rparr>,
      search_type = ustr ''mmr'', search_k = 8, search_fetch_k = 18\<rparr>"

definition demo_lib :: lib where
  "demo_lib =
     \<lparr>st_call = (\<lambda>_. None),
      HuggingFaceEmbeddings_init = (\<lambda>_ _ _. None),
      split_text = (\<lambda>chunk_size chunk_overlap text. [text]),
      FAISS_from_documents = (\<lambda>_ _ _ _. None),
      ChatGoogleGenerativeAI_init = (\<lambda>_ _ _. None),
      chain_call = (\<lambda>_ _ qa question.
         Inr \<lparr>answer = Some (ustr ''See the handbook.''),
              source_documents = Some (vs_docs (vectordb (chain_retriever qa)))\<rparr>)\<rparr>"

definition demo_env :: env where
  "demo_env =
     \<lparr>st_secrets = (\<lambda>os_environ. Inr ([api_key \<mapsto> PyStr (ustr ''k'')], os_environ)),
      open_read = (\<lambda>p. if p = handbook_path then Inr (ustr ''  Values of the handbook '')
                         else Inl (Exception (ustr ''FileNotFoundError'') p))\<rparr>"

definition demo_state :: state where
  "demo_state = \<lparr>environ = Map.empty, cache = Some demo_retriever, chat_history = None\<rparr>"

text \<open>
  Variants: no secrets file, secrets without the key, a key that is a number, a file
  system without the handbook; a first run with an empty cache, a session with one
  exchange stored; a chain that raises, and a framework whose \<open>st.code\<close> raises.
\<close>

definition no_secrets_env :: env where
  "no_secrets_env =
     demo_env\<lparr>st_secrets :=
       (\<lambda>os_environ. Inl (Exception (ustr ''FileNotFoundError'') (ustr ''No secrets files found.'')))\<rparr>"

definition no_key_env :: env where
  "no_key_env = demo_env\<lparr>st_secrets := (\<lambda>os_environ. Inr (Map.empty, os_environ))\<rparr>"

definition int_key_env :: env where
  "int_key_env =
     demo_env\<lparr>st_secrets :=
       (\<lambda>os_environ. Inr ([api_key \<mapsto> PyOther (ustr ''int'')], os_environ(api_key \<mapsto> ustr ''12345'')))\<rparr>"


definition cold_state :: state where
  "cold_state = \<lparr>environ = Map.empty, cache = None, chat_history = None\<rparr>"

definition chatted_state :: state where
  "chatted_state =
     \<lparr>environ = Map.empty, cache = Some demo_retriever,
      chat_history = Some [(ustr ''a'', ustr ''See the handbook.'')]\<rparr>"

definition timeout_lib :: lib where
  "timeout_lib =
     demo_lib\<lparr>chain_call := (\<lambda>_ _ _ _. Inl (Exception (ustr ''TimeoutError'') (ustr ''deadline exceeded'')))\<rparr>"

definition interrupt_lib :: lib where
  "interrupt_lib =
     demo_lib\<lparr>chain_call := (\<lambda>_ _ _ _. Inl (BaseException (ustr ''KeyboardInterrupt'') []))\<rparr>"

definition code_fails_lib :: lib where
  "code_fails_lib =
     demo_lib\<lparr>st_call :=
       (\<lambda>ev. case ev of
               StCode body language \<Rightarrow> Some (Exception (ustr ''StreamlitAPIException'') body)
             | _ \<Rightarrow> None)\<rparr>"

section \<open>Properties\<close>

subsection \<open>Auxiliary facts\<close>

text \<open>
  \<open>strip\<close> removes a prefix and a suffix of white space, and what is left neither
  starts nor ends with white space.
\<close>

lemma rev_dropWhile_takeWhile:
  "rev (dropWhile P (rev t)) @ rev (takeWhile P (rev t)) = t"
proof -
  have "rev (dropWhile P (rev t)) @ rev (takeWhile P (rev t))
          = rev (takeWhile P (rev t) @ dropWhile P (rev t))"
    by (simp only: rev_append)
  also have "\<dots> = t"
    by (simp only: takeWhile_dropWhile_id rev_rev_ident)
  finally show ?thesis .
qed

lemma strip_decomp:
  "\<exists>pre suf. s = pre @ strip s @ suf \<and> list_all py_isspace pre \<and> list_all py_isspace suf"
proof -
  let ?t = "dropWhile py_isspace s"
  let ?pre = "takeWhile py_isspace s"
  let ?suf = "rev (takeWhile py_isspace (rev ?t))"
  have "strip s @ ?suf = ?t"
    unfolding strip_def by (rule rev_dropWhile_takeWhile)
  then have "?pre @ strip s @ ?suf = s"
    by (simp only: takeWhile_dropWhile_id)
  moreover have "list_all py_isspace ?pre"
    by (simp add: list_all_iff) (meson set_takeWhileD)
  moreover have "list_all py_isspace ?suf"
    by (simp add: list_all_iff) (meson set_takeWhileD)
  ultimately show ?thesis by metis
qed

lemma strip_ends:
  assumes "strip s \<noteq> []"
  shows "\<not> py_isspace (hd (strip s)) \<and> \<not> py_isspace (last (strip s))"
proof -
  let ?t = "dropWhile py_isspace s"
  let ?u = "dropWhile py_isspace (rev ?t)"
  have su: "strip s = rev ?u" by (simp add: strip_def)
  with assms have u: "?u \<noteq> []" by simp
  then have l: "\<not> py_isspace (hd ?u)" by (rule hd_dropWhile)
  have la: "last (strip s) = hd ?u" using u by (simp only: su last_rev)
  have v: "strip s @ rev (takeWhile py_isspace (rev ?t)) = ?t"
    unfolding strip_def by (rule rev_dropWhile_takeWhile)
  from assms v have "?t \<noteq> []" by (metis append_is_Nil_conv)
  then have "\<not> py_isspace (hd ?t)" by (rule hd_dropWhile)
  moreover have "hd ?t = hd (strip s)" using v assms by (metis hd_append2)
  ultimately show ?thesis using l la by simp
qed

text \<open>What is displayed for the sources.\<close>

lemma show_sources_map:
  "show_sources docs =
     concat (map (\<lambda>doc. [StMarkdown (source_header doc), StCode (source_code doc) (ustr ''markdown'')]) docs)"
  by (induction docs) simp_all

lemma length_source_code:
  "length (source_code doc) = min 700 (length (strip (page_content doc))) + 3"
  by (simp add: source_code_def ustr_def min_def)

text \<open>Sequences of UI calls, and the shape of a run, case by case.\<close>

lemma perform_ok:
  "(\<forall>ev. st_call L ev = None) \<Longrightarrow> perform L evs = (None, evs)"
  by (induction evs) simp_all

lemma perform_None:
  "perform L plan = (None, made) \<Longrightarrow> made = plan"
proof (induction plan arbitrary: made)
  case Nil
  then show ?case by simp
next
  case (Cons ev plan)
  then show ?case
    by (cases "st_call L ev"; cases "perform L plan") auto
qed

lemma perform_made:
  "perform L plan = (x, made) \<Longrightarrow> set made \<subseteq> set plan"
proof (induction plan arbitrary: x made)
  case Nil
  then show ?case by simp
next
  case (Cons ev plan)
  show ?case
  proof (cases "st_call L ev")
    case (Some e)
    with Cons.prems show ?thesis by auto
  next
    case None
    obtain y rest where r: "perform L plan = (y, rest)"
      by (cases "perform L plan") auto
    from Cons.IH [OF r] Cons.prems None r show ?thesis by auto
  qed
qed

lemma perform_Some_first:
  "perform L (ev # plan) = (x, made) \<Longrightarrow> \<exists>rest. made = ev # rest \<and> set rest \<subseteq> set plan"
proof (cases "st_call L ev")
  case (Some e)
  assume "perform L (ev # plan) = (x, made)"
  with Some show ?thesis by auto
next
  case None
  assume p: "perform L (ev # plan) = (x, made)"
  obtain y rest where r: "perform L plan = (y, rest)"
    by (cases "perform L plan") auto
  from perform_made [OF r] p None r show ?thesis by auto
qed

lemma perform_quiet:
  assumes "perform L plan = (x, made)"
      and "\<forall>ev \<in> set plan. shown_errors ev = []" and "\<forall>ev \<in> set plan. chain_calls ev = []"
  shows "concat (map shown_errors made) = [] \<and> concat (map chain_calls made) = []"
  using perform_made [OF assms(1)] assms(2,3) by auto

lemma st_with_ok:
  "(\<forall>ev. st_call L ev = None) \<Longrightarrow> st_with L container body = (None, container body)"
  by (simp add: st_with_def perform_ok)

lemma st_with_None:
  assumes "st_with L container body = (None, d)"
  shows "d = container body"
proof (cases "st_call L (container [])")
  case (Some e)
  with assms show ?thesis by (simp add: st_with_def)
next
  case None
  obtain y made where r: "perform L body = (y, made)"
    by (cases "perform L body") auto
  with assms None have "y = None" "d = container made"
    by (simp_all add: st_with_def)
  with r perform_None show ?thesis by blast
qed

lemma st_with_made:
  assumes "st_with L container body = (x, d)"
  shows "\<exists>made. d = container made \<and> set made \<subseteq> set body"
proof (cases "st_call L (container [])")
  case (Some e)
  with assms have "d = container []" by (simp add: st_with_def)
  then show ?thesis by auto
next
  case None
  obtain y made where r: "perform L body = (y, made)"
    by (cases "perform L body") auto
  with assms None have "d = container made"
    by (simp add: st_with_def)
  with perform_made [OF r] show ?thesis by blast
qed

lemma say_user_ok:
  "(\<forall>ev. st_call L ev = None) \<Longrightarrow> say_user L msg = (None, user_message msg)"
  by (simp add: say_user_def user_message_def st_with_ok)

lemma say_assistant_ok:
  "(\<forall>ev. st_call L ev = None) \<Longrightarrow> say_assistant L msg = (None, assistant_message msg)"
  by (simp add: say_assistant_def assistant_message_def st_with_ok)

lemma say_user_None:
  "say_user L msg = (None, d) \<Longrightarrow> d = user_message msg"
  unfolding say_user_def user_message_def by (rule st_with_None)

lemma say_assistant_None:
  "say_assistant L msg = (None, d) \<Longrightarrow> d = assistant_message msg"
  unfolding say_assistant_def assistant_message_def by (rule st_with_None)

lemma say_user_quiet:
  assumes "say_user L msg = (x, d)"
  shows "shown_errors d = [] \<and> chain_calls d = []"
proof -
  from st_with_made [OF assms [unfolded say_user_def]]
  obtain made where "d = ChatMessage (ustr ''user'') [129489] made" "set made \<subseteq> {StMarkdown msg}"
    by auto
  then show ?thesis by auto
qed

lemma say_assistant_quiet:
  assumes "say_assistant L msg = (x, d)"
  shows "shown_errors d = [] \<and> chain_calls d = []"
proof -
  from st_with_made [OF assms [unfolded say_assistant_def]]
  obtain made where "d = ChatMessage (ustr ''assistant'') [129302] made" "set made \<subseteq> {StMarkdown msg}"
    by auto
  then show ?thesis by auto
qed

lemma show_sources_leaves:
  "\<forall>ev \<in> set (show_sources ds). shown_errors ev = [] \<and> chain_calls ev = []"
  by (induction ds) simp_all

lemma expander_quiet:
  assumes "st_with L (Expander l b) (show_sources ds) = (x, d)"
  shows "shown_errors d = [] \<and> chain_calls d = []"
proof -
  from st_with_made [OF assms]
  obtain made where "d = Expander l b made" "set made \<subseteq> set (show_sources ds)"
    by auto
  with show_sources_leaves [of ds] show ?thesis by auto
qed

lemma replay_run_ok:
  "(\<forall>ev. st_call L ev = None) \<Longrightarrow> replay_run L h = (None, replay h)"
  by (induction h rule: replay.induct) (simp_all add: say_user_ok say_assistant_ok)

lemma replay_run_None:
  "replay_run L h = (None, made) \<Longrightarrow> made = replay h"
proof (induction h arbitrary: made rule: replay.induct)
  case 1
  then show ?case by simp
next
  case (2 user_msg bot_msg rest)
  obtain x u where u: "say_user L user_msg = (x, u)"
    by (cases "say_user L user_msg") auto
  obtain y b where b: "say_assistant L bot_msg = (y, b)"
    by (cases "say_assistant L bot_msg") auto
  obtain z more where m: "replay_run L rest = (z, more)"
    by (cases "replay_run L rest") auto
  from "2.prems" u b m have n: "x = None" "y = None" "z = None" "made = u # b # more"
    by (cases x; cases y; simp)+
  from say_user_None [of L user_msg u] say_assistant_None [of L bot_msg b] u b n
  have "u = user_message user_msg" "b = assistant_message bot_msg" by simp_all
  moreover from "2.IH" [of more] m n have "more = replay rest" by simp
  ultimately show ?case using n by simp
qed

lemma replay_run_quiet:
  "replay_run L h = (x, made) \<Longrightarrow>
     concat (map shown_errors made) = [] \<and> concat (map chain_calls made) = []"
proof (induction h arbitrary: x made rule: replay.induct)
  case 1
  then show ?case by simp
next
  case (2 user_msg bot_msg rest)
  obtain xu u where u: "say_user L user_msg = (xu, u)"
    by (cases "say_user L user_msg") auto
  obtain y b where b: "say_assistant L bot_msg = (y, b)"
    by (cases "say_assistant L bot_msg") auto
  obtain z more where m: "replay_run L rest = (z, more)"
    by (cases "replay_run L rest") auto
  note qu = say_user_quiet [OF u] and qb = say_assistant_quiet [OF b] and qm = "2.IH" [OF m]
  from "2.prems" u b m have "made = [u] \<or> made = [u, b] \<or> made = u # b # more"
    by (cases xu; cases y; simp)
  with qu qb qm show ?case by auto
qed

lemma page_title_leaves:
  "\<forall>ev \<in> set page_title. shown_errors ev = [] \<and> chain_calls ev = []"
  by (simp add: page_title_def)

lemma page_top_ok:
  assumes "\<forall>ev. st_call L ev = None"
  shows "page_top L ch =
           (None, page_title @ [chat_input] @ replay (init_history ch), Some (init_history ch))"
  using assms by (simp add: page_top_def perform_ok replay_run_ok)

lemma page_top_None:
  assumes "page_top L ch = (None, evs, ch')"
  shows "evs = page_title @ [chat_input] @ replay (init_history ch) \<and> ch' = Some (init_history ch)"
proof -
  obtain x made where p: "perform L page_title = (x, made)"
    by (cases "perform L page_title") auto
  obtain y made' where r: "replay_run L (init_history ch) = (y, made')"
    by (cases "replay_run L (init_history ch)") auto
  from assms p have x: "x = None"
    by (cases x) (simp_all add: page_top_def)
  from assms p x have c: "st_call L chat_input = None"
    by (cases "st_call L chat_input") (simp_all add: page_top_def)
  from assms p x c r have e: "y = None" "evs = made @ [chat_input] @ made'" "ch' = Some (init_history ch)"
    by (simp_all add: page_top_def)
  from perform_None p x have "made = page_title" by blast
  moreover from replay_run_None r e(1) have "made' = replay (init_history ch)" by blast
  ultimately show ?thesis using e by simp
qed

lemma page_top_quiet:
  assumes "page_top L ch = (x, evs, ch')"
  shows "concat (map shown_errors evs) = [] \<and> concat (map chain_calls evs) = []
         \<and> init_history ch' = init_history ch"
proof -
  obtain y made where p: "perform L page_title = (y, made)"
    by (cases "perform L page_title") auto
  obtain z made' where r: "replay_run L (init_history ch) = (z, made')"
    by (cases "replay_run L (init_history ch)") auto
  have qp: "concat (map shown_errors made) = [] \<and> concat (map chain_calls made) = []"
    using perform_quiet [OF p] page_title_leaves by blast
  note qr = replay_run_quiet [OF r]
  have qc: "shown_errors chat_input = [] \<and> chain_calls chat_input = []"
    by (simp add: chat_input_def)
  show ?thesis
  proof (cases y)
    case (Some e)
    with assms p qp show ?thesis by (simp add: page_top_def)
  next
    case None
    show ?thesis
    proof (cases "st_call L chat_input")
      case (Some e)
      with assms p None qp qc show ?thesis by (auto simp add: page_top_def)
    next
      case n: None
      with assms p None r qp qc qr show ?thesis by (auto simp add: page_top_def)
    qed
  qed
qed

lemma try_body_cases [case_names raised answered]:
  obtains x evs where "try_body L E e qa h q = (Inl x, evs)"
      and "concat (map shown_errors evs) = []"
      and "concat (map chain_calls evs) = [] \<or> concat (map chain_calls evs) = [(qa, q)]"
  | result response where "st_call L (Spinner thinking []) = None"
      and "chain_call L E e qa q = Inr result" and "answer result = Some response"
      and "say_assistant L response = (None, assistant_message response)"
      and "st_with L (Expander sources_label False)
             (show_sources (case source_documents result of None \<Rightarrow> [] | Some ds \<Rightarrow> ds))
           = (None, Expander sources_label False
                (show_sources (case source_documents result of None \<Rightarrow> [] | Some ds \<Rightarrow> ds)))"
      and "try_body L E e qa h q =
             (Inr (h @ [(q, response)]),
              [Spinner thinking [CallChain qa q], assistant_message response,
               Expander sources_label False
                 (show_sources (case source_documents result of None \<Rightarrow> [] | Some ds \<Rightarrow> ds))])"
proof (cases "st_call L (Spinner thinking [])")
  case (Some x)
  then show ?thesis using that(1) [of x "[Spinner thinking []]"]
    by (simp add: try_body_def)
next
  case sp: None
  show ?thesis
  proof (cases "chain_call L E e qa q")
    case (Inl x)
    with sp show ?thesis using that(1) [of x "[Spinner thinking [CallChain qa q]]"]
      by (simp add: try_body_def)
  next
    case (Inr result)
    let ?docs = "case source_documents result of None \<Rightarrow> [] | Some ds \<Rightarrow> ds"
    show ?thesis
    proof (cases "answer result")
      case None
      with sp Inr show ?thesis
        using that(1) [of "Exception (ustr ''KeyError'') (ustr ''answer'')"
                          "[Spinner thinking [CallChain qa q]]"]
        by (simp add: try_body_def)
    next
      case (Some response)
      obtain y a where a: "say_assistant L response = (y, a)"
        by (cases "say_assistant L response") auto
      note qa = say_assistant_quiet [OF a]
      show ?thesis
      proof (cases y)
        case (Some x)
        with sp Inr \<open>answer result = Some response\<close> a qa show ?thesis
          using that(1) [of x "[Spinner thinking [CallChain qa q], a]"]
          by (simp add: try_body_def)
      next
        case None
        with a have a': "a = assistant_message response"
          using say_assistant_None by blast
        obtain z d where d: "st_with L (Expander sources_label False) (show_sources ?docs) = (z, d)"
          by (cases "st_with L (Expander sources_label False) (show_sources ?docs)") auto
        note qd = expander_quiet [OF d]
        show ?thesis
        proof (cases z)
          case (Some x)
          with sp Inr \<open>answer result = Some response\<close> a None d qa qd show ?thesis
            using that(1) [of x "[Spinner thinking [CallChain qa q], a, d]"]
            by (simp add: try_body_def)
        next
          case n: None
          with d have d': "d = Expander sources_label False (show_sources ?docs)"
            using st_with_None by blast
          from sp Inr \<open>answer result = Some response\<close> a None d n a' d' show ?thesis
            using that(2) [of result response]
            by (simp add: try_body_def)
        qed
      qed
    qed
  qed
qed

lemma new_query_cases
  [case_names no_query user_failed answered caught handler_failed uncaught]:
  obtains "\<not> truthy uq" and "new_query L E e qa h uq = (Completed, [], h)"
  | q x u where "uq = Some q" and "q \<noteq> []" and "say_user L q = (Some x, u)"
      and "shown_errors u = []" and "chain_calls u = []"
      and "new_query L E e qa h uq = (Uncaught x, [u], h)"
  | q result response where "uq = Some q" and "q \<noteq> []"
      and "say_user L q = (None, user_message q)"
      and "st_call L (Spinner thinking []) = None"
      and "chain_call L E e qa q = Inr result" and "answer result = Some response"
      and "say_assistant L response = (None, assistant_message response)"
      and "st_with L (Expander sources_label False)
             (show_sources (case source_documents result of None \<Rightarrow> [] | Some ds \<Rightarrow> ds))
           = (None, Expander sources_label False
                (show_sources (case source_documents result of None \<Rightarrow> [] | Some ds \<Rightarrow> ds)))"
      and "new_query L E e qa h uq =
             (Completed,
              [user_message q, Spinner thinking [CallChain qa q], assistant_message response,
               Expander sources_label False
                 (show_sources (case source_documents result of None \<Rightarrow> [] | Some ds \<Rightarrow> ds))],
              h @ [(q, response)])"
  | q x evs where "uq = Some q" and "q \<noteq> []" and "say_user L q = (None, user_message q)"
      and "try_body L E e qa h q = (Inl x, evs)" and "isinstance_Exception x"
      and "perform L [StError generic_error, StException x]
             = (None, [StError generic_error, StException x])"
      and "concat (map shown_errors evs) = []"
      and "concat (map chain_calls evs) = [] \<or> concat (map chain_calls evs) = [(qa, q)]"
      and "new_query L E e qa h uq =
             (Completed, user_message q # evs @ [StError generic_error, StException x], h)"
  | q x evs x' made where "uq = Some q" and "q \<noteq> []"
      and "say_user L q = (None, user_message q)"
      and "try_body L E e qa h q = (Inl x, evs)" and "isinstance_Exception x"
      and "perform L [StError generic_error, StException x] = (Some x', made)"
      and "made = [StError generic_error] \<or> made = [StError generic_error, StException x]"
      and "concat (map shown_errors evs) = []"
      and "concat (map chain_calls evs) = [] \<or> concat (map chain_calls evs) = [(qa, q)]"
      and "new_query L E e qa h uq = (Uncaught x', user_message q # evs @ made, h)"
  | q x evs where "uq = Some q" and "q \<noteq> []" and "say_user L q = (None, user_message q)"
      and "try_body L E e qa h q = (Inl x, evs)" and "\<not> isinstance_Exception x"
      and "concat (map shown_errors evs) = []"
      and "concat (map chain_calls evs) = [] \<or> concat (map chain_calls evs) = [(qa, q)]"
      and "new_query L E e qa h uq = (Uncaught x, user_message q # evs, h)"
proof (cases "truthy uq")
  case False
  then show ?thesis using that(1) by (simp add: new_query_def)
next
  case True
  then obtain q where q: "uq = Some q" "q \<noteq> []"
    by (cases uq) simp_all
  obtain y u where u: "say_user L q = (y, u)"
    by (cases "say_user L q") auto
  show ?thesis
  proof (cases y)
    case (Some x)
    with q u say_user_quiet [OF u] show ?thesis
      using that(2) [of q x u] by (simp add: new_query_def)
  next
    case None
    with u have u': "say_user L q = (None, user_message q)"
      using say_user_None by blast
    show ?thesis
    proof (cases rule: try_body_cases [of L E e qa h q])
      case (answered result response)
      with q u' show ?thesis
        using that(3) [of q result response] by (simp add: new_query_def)
    next
      case (raised x evs)
      show ?thesis
      proof (cases "isinstance_Exception x")
        case False
        with q u' raised show ?thesis
          using that(6) [of q x evs] by (simp add: new_query_def)
      next
        case True
        obtain z made where m: "perform L [StError generic_error, StException x] = (z, made)"
          by (cases "perform L [StError generic_error, StException x]") auto
        show ?thesis
        proof (cases z)
          case None
          with m have m': "made = [StError generic_error, StException x]"
            using perform_None by blast
          with q u' raised True m None show ?thesis
            using that(4) [of q x evs] by (simp add: new_query_def)
        next
          case (Some x')
          from perform_Some_first [OF m] obtain rest
            where "made = StError generic_error # rest" "set rest \<subseteq> {StException x}"
            by auto
          moreover from m Some have "length made \<le> 2"
            by (cases "st_call L (StError generic_error)";
                cases "st_call L (StException x)") auto
          ultimately have "made = [StError generic_error] \<or> made = [StError generic_error, StException x]"
            by (cases rest) auto
          with q u' raised True m Some show ?thesis
            using that(5) [of q x evs x' made] by (simp add: new_query_def)
        qed
      qed
    qed
  qed
qed

lemma startup_page:
  assumes "startup L E S = Inr (retr, evs, S')"
  shows "\<exists>secrets env1 key evs0 c.
           st_call L page_config = None
           \<and> st_secrets E (environ S) = Inr (secrets, env1)
           \<and> secrets api_key = Some (PyStr key)
           \<and> cached_load_vector_store L E (env1(api_key \<mapsto> key)) (cache S) = (Inr retr, evs0, c)
           \<and> ChatGoogleGenerativeAI_init L E (env1(api_key \<mapsto> key)) gemini_llm = None
           \<and> evs = [page_config, SetEnviron api_key key] @ evs0 @ [NewLLM gemini_llm]
           \<and> S' = S\<lparr>environ := env1(api_key \<mapsto> key), cache := c\<rparr>"
  using assms
  by (auto simp add: startup_def Let_def
        split: option.splits sum.splits prod.splits pyval.splits)

lemma startup_ok:
  assumes "st_call L page_config = None"
      and "st_secrets E (environ S) = Inr (secrets, env1)"
      and "secrets api_key = Some (PyStr key)"
      and "cached_load_vector_store L E (env1(api_key \<mapsto> key)) (cache S) = (Inr retr, evs0, c)"
      and "ChatGoogleGenerativeAI_init L E (env1(api_key \<mapsto> key)) gemini_llm = None"
  shows "startup L E S =
           Inr (retr, [page_config, SetEnviron api_key key] @ evs0 @ [NewLLM gemini_llm],
                S\<lparr>environ := env1(api_key \<mapsto> key), cache := c\<rparr>)"
  using assms by (simp add: startup_def)

lemma load_vector_store_ok:
  assumes "HuggingFaceEmbeddings_init L E e \<lparr>model_name = ustr ''all-MiniLM-L6-v2''\<rparr> = None"
      and "open_read E handbook_path = Inr raw_text"
      and "FAISS_from_documents L E e
             (map (\<lambda>chunk. \<lparr>page_content = chunk, metadata = Map.empty\<rparr>) (split_text L 500 60 raw_text))
             \<lparr>model_name = ustr ''all-MiniLM-L6-v2''\<rparr> = None"
  shows "load_vector_store L E e =
     (Inr \<lparr>vectordb =
             \<lparr>vs_docs = map (\<lambda>chunk. \<lparr>page_content = chunk, metadata = Map.empty\<rparr>)
                            (split_text L 500 60 raw_text),
              vs_embedding = \<lparr>model_name = ustr ''all-MiniLM-L6-v2''\<rparr>\<rparr>,
           search_type = ustr ''mmr'', search_k = 8, search_fetch_k = 18\<rparr>,
      [NewEmbeddings \<lparr>model_name = ustr ''all-MiniLM-L6-v2''\<rparr>,
       OpenRead handbook_path (ustr ''r'') (ustr ''utf-8''),
       SplitText 500 60 raw_text,
       FaissFromDocuments
         (map (\<lambda>chunk. \<lparr>page_content = chunk, metadata = Map.empty\<rparr>) (split_text L 500 60 raw_text))
         \<lparr>model_name = ustr ''all-MiniLM-L6-v2''\<rparr>])"
  using assms by (simp add: load_vector_store_def Let_def)

lemma load_vector_store_quiet:
  assumes "load_vector_store L E e = (res, evs)"
  shows "concat (map shown_errors evs) = [] \<and> concat (map chain_calls evs) = []"
  using assms
  by (auto simp add: load_vector_store_def Let_def split: option.splits sum.splits)

lemma cached_load_quiet:
  assumes "cached_load_vector_store L E e c = (res, evs, c')"
  shows "concat (map shown_errors evs) = [] \<and> concat (map chain_calls evs) = []"
proof (cases c)
  case (Some r)
  with assms show ?thesis by (simp add: cached_load_vector_store_def)
next
  case None
  obtain res' evs' where lv: "load_vector_store L E e = (res', evs')"
    by (cases "load_vector_store L E e") auto
  from load_vector_store_quiet [OF lv] assms None lv show ?thesis
    by (cases res') (auto simp add: cached_load_vector_store_def)
qed

lemma cached_load_cache:
  assumes "cached_load_vector_store L E e c = (res, evs, c')"
  shows "c' = c \<or> (c = None \<and> (\<exists>r. c' = Some r \<and> res = Inr r))"
proof (cases c)
  case (Some r)
  with assms show ?thesis by (simp add: cached_load_vector_store_def)
next
  case None
  obtain res' evs' where lv: "load_vector_store L E e = (res', evs')"
    by (cases "load_vector_store L E e") auto
  from assms None lv show ?thesis
    by (cases res') (auto simp add: cached_load_vector_store_def)
qed

lemma cached_load_hit:
  "cached_load_vector_store L E e (Some r) = (Inr r, [], Some r)"
  by (simp add: cached_load_vector_store_def)

lemma startup_quiet:
  assumes "startup L E S = Inr (retr, evs, S')"
  shows "concat (map shown_errors evs) = [] \<and> concat (map chain_calls evs) = []
         \<and> chat_history S' = chat_history S"
proof -
  from startup_page [OF assms] obtain secrets env1 key evs0 c where
    "st_secrets E (environ S) = Inr (secrets, env1)"
    and c: "cached_load_vector_store L E (env1(api_key \<mapsto> key)) (cache S) = (Inr retr, evs0, c)"
    and e: "evs = [page_config, SetEnviron api_key key] @ evs0 @ [NewLLM gemini_llm]"
    and s: "S' = S\<lparr>environ := env1(api_key \<mapsto> key), cache := c\<rparr>"
    by blast
  show ?thesis
    by (simp add: e s page_config_def cached_load_quiet [OF c])
qed

lemma startup_ended:
  assumes "startup L E S = Inl r"
  shows "chat_history (final r) = chat_history S \<and> calls_of r = []
         \<and> (outcome r = Stopped \<or> (\<exists>x. outcome r = Uncaught x))
         \<and> (errors_of r = []
             \<or> (errors_of r = [key_missing]
                 \<and> (\<exists>secrets env1. st_secrets E (environ S) = Inr (secrets, env1)
                                   \<and> secrets api_key = None)))"
proof (cases "st_call L page_config")
  case (Some x)
  with assms show ?thesis
    by (auto simp add: startup_def calls_of_def errors_of_def page_config_def)
next
  case pc: None
  show ?thesis
  proof (cases "st_secrets E (environ S)")
    case (Inl x)
    with assms pc show ?thesis
      by (auto simp add: startup_def calls_of_def errors_of_def page_config_def)
  next
    case (Inr p)
    then obtain secrets env1 where se: "st_secrets E (environ S) = Inr (secrets, env1)"
      by (cases p) auto
    show ?thesis
    proof (cases "secrets api_key")
      case None
      with assms pc se show ?thesis
        by (cases "st_call L (StError key_missing)")
           (auto simp add: startup_def calls_of_def errors_of_def page_config_def)
    next
      case (Some v)
      show ?thesis
      proof (cases v)
        case (PyOther t)
        with assms pc se Some show ?thesis
          by (auto simp add: startup_def calls_of_def errors_of_def page_config_def)
      next
        case (PyStr key)
        let ?env = "env1(api_key \<mapsto> key)"
        obtain res evs c where cl: "cached_load_vector_store L E ?env (cache S) = (res, evs, c)"
          by (cases "cached_load_vector_store L E ?env (cache S)") auto
        note q = cached_load_quiet [OF cl]
        show ?thesis
        proof (cases res)
          case (Inl x)
          with assms pc se Some PyStr cl q show ?thesis
            by (auto simp add: startup_def calls_of_def errors_of_def page_config_def)
        next
          case (Inr retr)
          with assms pc se Some PyStr cl q show ?thesis
            by (cases "ChatGoogleGenerativeAI_init L E ?env gemini_llm")
               (auto simp add: startup_def calls_of_def errors_of_def page_config_def)
        qed
      qed
    qed
  qed
qed

lemma script_ended:
  "startup L E S = Inl r \<Longrightarrow> script L E S uq = r"
  by (simp add: script_def)

lemma script_page_failed:
  assumes "startup L E S = Inr (retr, evs, S')"
      and "page_top L (chat_history S) = (Some x, evs2, ch')"
  shows "script L E S uq =
           \<lparr>outcome = Uncaught x, trace = evs @ evs2, final = S'\<lparr>chat_history := ch'\<rparr>\<rparr>"
  using assms startup_quiet [OF assms(1)] by (simp add: script_def chat_page_def)

lemma script_page_run:
  assumes "startup L E S = Inr (retr, evs, S')"
      and "page_top L (chat_history S) = (None, evs2, ch')"
      and "new_query L E (environ S') (qa_chain retr) (init_history (chat_history S)) uq
             = (out, evs3, h')"
  shows "script L E S uq =
           \<lparr>outcome = out, trace = evs @ evs2 @ evs3, final = S'\<lparr>chat_history := Some h'\<rparr>\<rparr>"
  using assms startup_quiet [OF assms(1)] by (simp add: script_def chat_page_def)

lemma script_cases [case_names ended page_failed page]:
  obtains r where "startup L E S = Inl r" and "script L E S uq = r"
  | retr evs S' x evs2 ch' where "startup L E S = Inr (retr, evs, S')"
      and "page_top L (chat_history S) = (Some x, evs2, ch')"
      and "script L E S uq =
             \<lparr>outcome = Uncaught x, trace = evs @ evs2, final = S'\<lparr>chat_history := ch'\<rparr>\<rparr>"
  | retr evs S' out evs3 h' where "startup L E S = Inr (retr, evs, S')"
      and "page_top L (chat_history S) =
             (None, page_title @ [chat_input] @ replay (init_history (chat_history S)),
              Some (init_history (chat_history S)))"
      and "new_query L E (environ S') (qa_chain retr) (init_history (chat_history S)) uq
             = (out, evs3, h')"
      and "script L E S uq =
             \<lparr>outcome = out,
              trace = evs @ (page_title @ [chat_input] @ replay (init_history (chat_history S))) @ evs3,
              final = S'\<lparr>chat_history := Some h'\<rparr>\<rparr>"
proof (cases "startup L E S")
  case (Inl r)
  then show ?thesis using that(1) script_ended by blast
next
  case (Inr p)
  then obtain retr evs S' where st: "startup L E S = Inr (retr, evs, S')"
    by (cases p) auto
  obtain x evs2 ch' where pt: "page_top L (chat_history S) = (x, evs2, ch')"
    by (cases "page_top L (chat_history S)") auto
  show ?thesis
  proof (cases x)
    case (Some e)
    with st pt show ?thesis
      using that(2) script_page_failed by blast
  next
    case None
    with pt page_top_None [of L "chat_history S" evs2 ch']
    have pt': "page_top L (chat_history S) =
             (None, page_title @ [chat_input] @ replay (init_history (chat_history S)),
              Some (init_history (chat_history S)))"
      by simp
    obtain out evs3 h' where nq:
      "new_query L E (environ S') (qa_chain retr) (init_history (chat_history S)) uq = (out, evs3, h')"
      by (cases "new_query L E (environ S') (qa_chain retr) (init_history (chat_history S)) uq") auto
    from that(3) [OF st pt' nq script_page_run [OF st pt' nq]] show ?thesis .
  qed
qed

lemma try_body_ok:
  assumes "\<forall>ev. st_call L ev = None"
      and "chain_call L E e qa q = Inr result" and "answer result = Some response"
  shows "try_body L E e qa h q =
     (Inr (h @ [(q, response)]),
      [Spinner thinking [CallChain qa q], assistant_message response,
       Expander sources_label False
         (show_sources (case source_documents result of None \<Rightarrow> [] | Some ds \<Rightarrow> ds))])"
  using assms by (simp add: try_body_def say_assistant_ok st_with_ok)

lemma new_query_ok:
  assumes "\<forall>ev. st_call L ev = None" and "q \<noteq> []"
      and "chain_call L E e qa q = Inr result" and "answer result = Some response"
  shows "new_query L E e qa h (Some q) =
     (Completed,
      [user_message q, Spinner thinking [CallChain qa q], assistant_message response,
       Expander sources_label False
         (show_sources (case source_documents result of None \<Rightarrow> [] | Some ds \<Rightarrow> ds))],
      h @ [(q, response)])"
  using assms(1,2) by (simp add: new_query_def say_user_ok try_body_ok [OF assms(1,3,4)])


text \<open>Facts about the sample library and environment.\<close>

lemma demo_ui: "st_call demo_lib ev = None"
  by (simp add: demo_lib_def)

lemma demo_query: "ustr ''hi'' \<noteq> []"
  by (simp add: ustr_def)

lemma demo_secrets:
  "st_secrets demo_env e = Inr ([api_key \<mapsto> PyStr (ustr ''k'')], e)"
  by (simp add: demo_env_def)

lemma demo_key: "[api_key \<mapsto> PyStr (ustr ''k'')] api_key = Some (PyStr (ustr ''k''))"
  by simp

lemma demo_llm: "ChatGoogleGenerativeAI_init demo_lib E e gemini_llm = None"
  by (simp add: demo_lib_def)

lemma demo_chain:
  "chain_call demo_lib E e (qa_chain demo_retriever) q
     = Inr \<lparr>answer = Some (ustr ''See the handbook.''), source_documents = Some demo_docs\<rparr>"
  by (simp add: demo_lib_def qa_chain_def demo_retriever_def)

lemma demo_cold_load:
  "cached_load_vector_store demo_lib demo_env e None =
     (Inr demo_retriever,
      [CacheSpinner (ustr ''Building vector DB...'')
         [NewEmbeddings \<lparr>model_name = ustr ''all-MiniLM-L6-v2''\<rparr>,
          OpenRead handbook_path (ustr ''r'') (ustr ''utf-8''),
          SplitText 500 60 (ustr ''  Values of the handbook ''),
          FaissFromDocuments demo_docs \<lparr>model_name = ustr ''all-MiniLM-L6-v2''\<rparr>]],
      Some demo_retriever)"
  by (simp add: cached_load_vector_store_def load_vector_store_def Let_def demo_lib_def
        demo_env_def demo_retriever_def demo_docs_def)

lemma demo_sources:
  "show_sources demo_docs =
      [StMarkdown (ustr ''**Unknown '' @ [8594] @ ustr ''** `N/A`''),
       StCode (ustr ''Values of the handbook...'') (ustr ''markdown'')]"
  by (simp add: demo_docs_def source_header_def source_code_def dict_get_def strip_def
        py_isspace_def ustr_def)

subsection \<open>The displayed sources\<close>

text \<open>
  Claim C9. After a successful answer, displayed without any UI call raising, the
  last element of the page is the sources expander; for every source document it
  shows the header and then, as code, the stripped page content cut to its first 700
  characters followed by \<open>...\<close>. The three dots are appended also when the stripped
  content has fewer than 700 characters, so the displayed text has \<open>min 700 n + 3\<close>
  characters.
\<close>

theorem sources_excerpt:
  assumes "\<forall>ev. st_call L ev = None"
      and "st_secrets E (environ S) = Inr (secrets, env1)"
      and "secrets api_key = Some (PyStr key)"
      and "cached_load_vector_store L E (env1(api_key \<mapsto> key)) (cache S) = (Inr r, evs, c)"
      and "ChatGoogleGenerativeAI_init L E (env1(api_key \<mapsto> key)) gemini_llm = None"
      and "q \<noteq> []"
      and "chain_call L E (env1(api_key \<mapsto> key)) (qa_chain r) q = Inr result"
      and "answer result = Some response"
  shows "(\<exists>before. trace (script L E S (Some q)) =
            before @ [Expander sources_label False
              (show_sources (case source_documents result of None \<Rightarrow> [] | Some ds \<Rightarrow> ds))])
       \<and> (\<forall>docs. show_sources docs =
            concat (map (\<lambda>doc. [StMarkdown (source_header doc),
                                   StCode (take 700 (strip (page_content doc)) @ ustr ''...'')
                                          (ustr ''markdown'')]) docs))
       \<and> (\<forall>doc. length (source_code doc) = min 700 (length (strip (page_content doc))) + 3)
       \<and> (\<forall>doc. length (strip (page_content doc)) < 700 \<longrightarrow>
                  source_code doc = strip (page_content doc) @ ustr ''...'')"
proof -
  let ?env = "env1(api_key \<mapsto> key)"
  let ?S' = "S\<lparr>environ := ?env, cache := c\<rparr>"
  let ?h = "init_history (chat_history S)"
  let ?ex = "Expander sources_label False
              (show_sources (case source_documents result of None \<Rightarrow> [] | Some ds \<Rightarrow> ds))"
  have pc: "st_call L page_config = None"
    using assms(1) by simp
  note st = startup_ok [OF pc assms(2-5)]
  note pt = page_top_ok [OF assms(1), of "chat_history S"]
  have nq: "new_query L E (environ ?S') (qa_chain r) ?h (Some q) =
     (Completed,
      [user_message q, Spinner thinking [CallChain (qa_chain r) q], assistant_message response, ?ex],
      ?h @ [(q, response)])"
    using new_query_ok [OF assms(1,6,7,8)] by simp
  note run = script_page_run [OF st pt nq]
  have "trace (script L E S (Some q)) =
          ([page_config, SetEnviron api_key key] @ evs @ [NewLLM gemini_llm] @ page_title
            @ [chat_input] @ replay ?h
            @ [user_message q, Spinner thinking [CallChain (qa_chain r) q], assistant_message response])
          @ [?ex]"
    by (simp add: run)
  then have 1: "\<exists>before. trace (script L E S (Some q)) = before @ [?ex]"
    by (rule exI)
  have 2: "\<forall>docs. show_sources docs =
            concat (map (\<lambda>doc. [StMarkdown (source_header doc),
                                   StCode (take 700 (strip (page_content doc)) @ ustr ''...'')
                                          (ustr ''markdown'')]) docs)"
    using show_sources_map by (simp add: source_code_def)
  have 3: "\<forall>doc. length (source_code doc) = min 700 (length (strip (page_content doc))) + 3"
    by (simp add: length_source_code)
  have 4: "\<forall>doc. length (strip (page_content doc)) < 700 \<longrightarrow>
                  source_code doc = strip (page_content doc) @ ustr ''...''"
    by (simp add: source_code_def)
  from 1 2 3 4 show ?thesis by (intro conjI)
qed

theorem sources_excerpt_witness:
  "last (trace (script demo_lib demo_env demo_state (Some (ustr ''hi'')))) =
     Expander sources_label False
       [StMarkdown (ustr ''**Unknown '' @ [8594] @ ustr ''** `N/A`''),
        StCode (ustr ''Values of the handbook...'') (ustr ''markdown'')]"
proof -
  have u: "\<forall>ev. st_call demo_lib ev = None"
    by (simp add: demo_ui)
  have c: "cached_load_vector_store demo_lib demo_env ((environ demo_state)(api_key \<mapsto> ustr ''k''))
             (cache demo_state) = (Inr demo_retriever, [], Some demo_retriever)"
    by (simp add: demo_state_def cached_load_hit)
  have a: "answer \<lparr>answer = Some (ustr ''See the handbook.''), source_documents = Some demo_docs\<rparr>
             = Some (ustr ''See the handbook.'')"
    by simp
  from sources_excerpt [OF u demo_secrets demo_key c demo_llm demo_query demo_chain a] demo_sources
  show ?thesis
    by auto
qed

subsection \<open>The first run\<close>

text \<open>
  Claim C3. On a run with an empty resource cache, with the key present and every
  call of the framework and the libraries succeeding, the calls are made in this
  order: the handbook file is read, its text is split into chunks, the chunks are
  embedded and indexed by \<open>FAISS.from_documents\<close>, and only then, after the language
  model is created, the title, the welcome text and the chat input are put on the
  page. The retriever built from these chunks is what the cache holds afterwards.
\<close>

theorem startup_order:
  fixes L :: lib and E :: env and S :: state
  defines "emb \<equiv> \<lparr>model_name = ustr ''all-MiniLM-L6-v2''\<rparr>"
  assumes "\<forall>ev. st_call L ev = None"
      and "st_secrets E (environ S) = Inr (secrets, env1)"
      and "secrets api_key = Some (PyStr key)"
      and "cache S = None"
      and "HuggingFaceEmbeddings_init L E (env1(api_key \<mapsto> key)) emb = None"
      and "open_read E handbook_path = Inr raw_text"
      and "docs = map (\<lambda>chunk. \<lparr>page_content = chunk, metadata = Map.empty\<rparr>)
                      (split_text L 500 60 raw_text)"
      and "FAISS_from_documents L E (env1(api_key \<mapsto> key)) docs emb = None"
      and "ChatGoogleGenerativeAI_init L E (env1(api_key \<mapsto> key)) gemini_llm = None"
  shows "(\<exists>rest. trace (script L E S uq) =
            [page_config, SetEnviron api_key key,
             CacheSpinner (ustr ''Building vector DB...'')
               [NewEmbeddings emb,
                OpenRead handbook_path (ustr ''r'') (ustr ''utf-8''),
                SplitText 500 60 raw_text,
                FaissFromDocuments docs emb],
             NewLLM gemini_llm,
             StTitle ([129302] @ ustr '' GitLab Handbook & Direction AI Chatbot''),
             StMarkdown welcome_text,
             StChatInput (ustr ''Ask me anything about GitLab... '' @ [10024])] @ rest)
       \<and> cache (final (script L E S uq)) =
            Some \<lparr>vectordb = \<lparr>vs_docs = docs, vs_embedding = emb\<rparr>,
                  search_type = ustr ''mmr'', search_k = 8, search_fetch_k = 18\<rparr>"
proof -
  let ?env = "env1(api_key \<mapsto> key)"
  let ?r = "\<lparr>vectordb = \<lparr>vs_docs = docs, vs_embedding = emb\<rparr>,
             search_type = ustr ''mmr'', search_k = 8, search_fetch_k = 18\<rparr>"
  let ?evs = "[NewEmbeddings emb, OpenRead handbook_path (ustr ''r'') (ustr ''utf-8''),
              SplitText 500 60 raw_text, FaissFromDocuments docs emb]"
  let ?S' = "S\<lparr>environ := ?env, cache := Some ?r\<rparr>"
  have lv: "load_vector_store L E ?env = (Inr ?r, ?evs)"
    using load_vector_store_ok [of L E ?env raw_text] assms(6-9)
    by (simp add: emb_def)
  have cl: "cached_load_vector_store L E ?env (cache S) =
              (Inr ?r, [CacheSpinner (ustr ''Building vector DB...'') ?evs], Some ?r)"
    using lv assms(5) by (simp add: cached_load_vector_store_def)
  have pc: "st_call L page_config = None"
    using assms(2) by simp
  note st = startup_ok [OF pc assms(3,4) cl assms(10)]
  note pt = page_top_ok [OF assms(2), of "chat_history S"]
  obtain out evs' h' where nq:
    "new_query L E (environ ?S') (qa_chain ?r) (init_history (chat_history S)) uq = (out, evs', h')"
    by (cases "new_query L E (environ ?S') (qa_chain ?r) (init_history (chat_history S)) uq") auto
  note run = script_page_run [OF st pt nq]
  have 1: "\<exists>rest. trace (script L E S uq) =
            [page_config, SetEnviron api_key key,
             CacheSpinner (ustr ''Building vector DB...'') ?evs,
             NewLLM gemini_llm,
             StTitle ([129302] @ ustr '' GitLab Handbook & Direction AI Chatbot''),
             StMarkdown welcome_text,
             StChatInput (ustr ''Ask me anything about GitLab... '' @ [10024])] @ rest"
    by (simp add: run page_title_def chat_input_def)
  have 2: "cache (final (script L E S uq)) = Some ?r"
    by (simp add: run)
  from 1 2 show ?thesis by (intro conjI)
qed

theorem startup_order_witness:
  "cache cold_state = None
   \<and> take 4 (trace (script demo_lib demo_env cold_state None)) =
        [page_config, SetEnviron api_key (ustr ''k''),
         CacheSpinner (ustr ''Building vector DB...'')
           [NewEmbeddings \<lparr>model_name = ustr ''all-MiniLM-L6-v2''\<rparr>,
            OpenRead handbook_path (ustr ''r'') (ustr ''utf-8''),
            SplitText 500 60 (ustr ''  Values of the handbook ''),
            FaissFromDocuments demo_docs \<lparr>model_name = ustr ''all-MiniLM-L6-v2''\<rparr>],
         NewLLM gemini_llm]
   \<and> cache (final (script demo_lib demo_env cold_state None)) = Some demo_retriever"
proof -
  let ?env = "(environ cold_state)(api_key \<mapsto> ustr ''k'')"
  have u: "\<forall>ev. st_call demo_lib ev = None"
    by (simp add: demo_ui)
  have c: "cache cold_state = None"
    by (simp add: cold_state_def)
  have h: "HuggingFaceEmbeddings_init demo_lib demo_env ?env \<lparr>model_name = ustr ''all-MiniLM-L6-v2''\<rparr> = None"
    by (simp add: demo_lib_def)
  have f: "open_read demo_env handbook_path = Inr (ustr ''  Values of the handbook '')"
    by (simp add: demo_env_def)
  have d: "demo_docs = map (\<lambda>chunk. \<lparr>page_content = chunk, metadata = Map.empty\<rparr>)
                          (split_text demo_lib 500 60 (ustr ''  Values of the handbook ''))"
    by (simp add: demo_docs_def demo_lib_def)
  have i: "FAISS_from_documents demo_lib demo_env ?env demo_docs \<lparr>model_name = ustr ''all-MiniLM-L6-v2''\<rparr> = None"
    by (simp add: demo_lib_def)
  from startup_order [OF u demo_secrets demo_key c h f d i demo_llm, of None] c show ?thesis
    by (auto simp add: demo_retriever_def)
qed

text \<open>The calls of the chain.\<close>

lemma startup_history:
  "startup L E (S\<lparr>chat_history := ch\<rparr>) =
     (case startup L E S of
        Inl r \<Rightarrow> Inl (r\<lparr>final := (final r)\<lparr>chat_history := ch\<rparr>\<rparr>)
      | Inr (retr, evs, S') \<Rightarrow> Inr (retr, evs, S'\<lparr>chat_history := ch\<rparr>))"
  by (simp add: startup_def Let_def split: option.splits sum.splits prod.splits pyval.splits)

lemma replay_quiet:
  "concat (map shown_errors (replay h)) = [] \<and> concat (map chain_calls (replay h)) = []"
  by (induction h rule: replay.induct) (simp_all add: user_message_def assistant_message_def)

lemma show_sources_quiet:
  "concat (map shown_errors (show_sources ds)) = [] \<and> concat (map chain_calls (show_sources ds)) = []"
  by (induction ds) simp_all

lemma page_run_reads:
  assumes "startup L E S = Inr (retr, evs, S')"
      and "script L E S uq =
             \<lparr>outcome = out,
              trace = evs @ (page_title @ [chat_input] @ replay h) @ evs3,
              final = F\<rparr>"
  shows "calls_of (script L E S uq) = concat (map chain_calls evs3)"
    and "errors_of (script L E S uq) = concat (map shown_errors evs3)"
proof -
  note q = startup_quiet [OF assms(1)]
  show "calls_of (script L E S uq) = concat (map chain_calls evs3)"
    by (simp add: assms(2) calls_of_def q [THEN conjunct2, THEN conjunct1] replay_quiet
          page_title_def chat_input_def)
  show "errors_of (script L E S uq) = concat (map shown_errors evs3)"
    by (simp add: assms(2) errors_of_def q [THEN conjunct1] replay_quiet
          page_title_def chat_input_def)
qed

lemma try_body_called:
  assumes "st_call L (Spinner thinking []) = None"
      and "try_body L E e qa h q = (r, evs)"
  shows "concat (map chain_calls evs) = [(qa, q)]"
proof (cases "chain_call L E e qa q")
  case (Inl x)
  with assms show ?thesis by (auto simp add: try_body_def)
next
  case (Inr result)
  let ?docs = "case source_documents result of None \<Rightarrow> [] | Some ds \<Rightarrow> ds"
  show ?thesis
  proof (cases "answer result")
    case None
    with assms Inr show ?thesis by (auto simp add: try_body_def)
  next
    case (Some response)
    obtain y a where a: "say_assistant L response = (y, a)"
      by (cases "say_assistant L response") auto
    obtain z d where d: "st_with L (Expander sources_label False) (show_sources ?docs) = (z, d)"
      by (cases "st_with L (Expander sources_label False) (show_sources ?docs)") auto
    note qa = say_assistant_quiet [OF a] and qd = expander_quiet [OF d]
    from assms Inr Some a d qa qd show ?thesis
      by (cases y; cases z) (auto simp add: try_body_def)
  qed
qed

lemma calls_of_script_ok:
  assumes "\<forall>ev. st_call L ev = None"
  shows "calls_of (script L E S uq) =
     (case startup L E S of
        Inl r \<Rightarrow> []
      | Inr (retr, evs, S') \<Rightarrow> (if truthy uq then [(qa_chain retr, the uq)] else []))"
proof (cases rule: script_cases [of L E S uq])
  case (ended r)
  with startup_ended [OF ended(1)] show ?thesis by simp
next
  case (page_failed retr evs S' x evs2 ch')
  with page_top_ok [OF assms, of "chat_history S"] show ?thesis by simp
next
  case (page retr evs S' out evs3 h')
  note c = page_run_reads(1) [OF page(1) page(4)]
  have sp: "st_call L (Spinner thinking []) = None"
    using assms by simp
  show ?thesis
  proof (cases rule: new_query_cases [of uq L E "environ S'" "qa_chain retr" "init_history (chat_history S)"])
    case no_query
    with page(3) have "evs3 = []" by simp
    with no_query(1) show ?thesis by (simp add: c page(1))
  next
    case (user_failed q x u)
    with say_user_ok [OF assms, of q] show ?thesis by simp
  next
    case (answered q result response)
    with page(3) have "concat (map chain_calls evs3) = [(qa_chain retr, q)]"
      by (auto simp add: show_sources_quiet user_message_def assistant_message_def)
    with answered(1,2) c show ?thesis by (simp add: page(1))
  next
    case (caught q x evs')
    with page(3) try_body_called [OF sp caught(4)]
    have "concat (map chain_calls evs3) = [(qa_chain retr, q)]"
      by (auto simp add: user_message_def)
    with caught(1,2) c show ?thesis by (simp add: page(1))
  next
    case (handler_failed q x evs' x' made)
    with perform_ok [OF assms, of "[StError generic_error, StException x]"] show ?thesis by simp
  next
    case (uncaught q x evs')
    with page(3) try_body_called [OF sp uncaught(4)]
    have "concat (map chain_calls evs3) = [(qa_chain retr, q)]"
      by (auto simp add: user_message_def)
    with uncaught(1,2) c show ?thesis by (simp add: page(1))
  qed
qed

lemma calls_ignore_history:
  assumes "\<forall>ev. st_call L ev = None"
  shows "calls_of (script L E (S\<lparr>chat_history := ch\<rparr>) uq) = calls_of (script L E S uq)"
  unfolding calls_of_script_ok [OF assms] startup_history
  by (simp split: sum.splits prod.splits)

subsection \<open>What the chain is given\<close>

text \<open>
  Claim C2. In every run that gets as far, the chain, built on the retriever of the
  vector index, is called once, with the submitted query as its question
  (\<open>calls_of_script_ok\<close>), and its answer is what the page shows and the history
  records (\<open>new_query_ok\<close>). But the memory the chain is built with is constructed anew
  by every run from constants only, and the stored conversation is passed neither to
  it nor to the chain, so, when no UI call raises, the call is the same whatever the
  history holds (\<open>calls_ignore_history\<close>). In a session of two queries, the second
  run replays the first exchange on the page and then calls the chain with the second
  question and a memory that holds no exchange.
\<close>

theorem second_query_without_history:
  "map calls_of (session demo_lib demo_env cold_state [Some (ustr ''a''), Some (ustr ''b'')])
     = [ [(qa_chain demo_retriever, ustr ''a'')], [(qa_chain demo_retriever, ustr ''b'')] ]
   \<and> map final (session demo_lib demo_env cold_state [Some (ustr ''a''), Some (ustr ''b'')])
     = [\<lparr>environ = [api_key \<mapsto> ustr ''k''], cache = Some demo_retriever,
         chat_history = Some [(ustr ''a'', ustr ''See the handbook.'')]\<rparr>,
        \<lparr>environ = [api_key \<mapsto> ustr ''k''], cache = Some demo_retriever,
         chat_history = Some [(ustr ''a'', ustr ''See the handbook.''),
                              (ustr ''b'', ustr ''See the handbook.'')]\<rparr>]
   \<and> chain_memory (qa_chain demo_retriever)
     = \<lparr>mem_llm = gemini_llm, memory_key = ustr ''chat_history'',
        return_messages = True, mem_output_key = ustr ''answer''\<rparr>"
proof -
  let ?a = "ustr ''a''" and ?b = "ustr ''b''" and ?ans = "ustr ''See the handbook.''"
  let ?env = "[api_key \<mapsto> ustr ''k'']"
  let ?S1 = "\<lparr>environ = ?env, cache = Some demo_retriever, chat_history = Some [(?a, ?ans)]\<rparr>"
  let ?S2 = "\<lparr>environ = ?env, cache = Some demo_retriever,
             chat_history = Some [(?a, ?ans), (?b, ?ans)]\<rparr>"
  have a: "?a \<noteq> []" and b: "?b \<noteq> []"
    by (simp_all add: ustr_def)
  have u: "\<forall>ev. st_call demo_lib ev = None"
    by (simp add: demo_ui)
  have pc: "st_call demo_lib page_config = None"
    by (simp add: demo_ui)
  have r: "answer \<lparr>answer = Some ?ans, source_documents = Some demo_docs\<rparr> = Some ?ans"
    by simp
  have c1: "cached_load_vector_store demo_lib demo_env ((environ cold_state)(api_key \<mapsto> ustr ''k''))
              (cache cold_state) =
     (Inr demo_retriever,
      [CacheSpinner (ustr ''Building vector DB...'')
         [NewEmbeddings \<lparr>model_name = ustr ''all-MiniLM-L6-v2''\<rparr>,
          OpenRead handbook_path (ustr ''r'') (ustr ''utf-8''),
          SplitText 500 60 (ustr ''  Values of the handbook ''),
          FaissFromDocuments demo_docs \<lparr>model_name = ustr ''all-MiniLM-L6-v2''\<rparr>]],
      Some demo_retriever)"
    by (simp add: cold_state_def demo_cold_load)
  note st1 = startup_ok [OF pc demo_secrets demo_key c1 demo_llm]
  note run1 = script_page_run [OF st1 page_top_ok [OF u] new_query_ok [OF u a demo_chain r]]
  have f1: "final (script demo_lib demo_env cold_state (Some ?a)) = ?S1"
    unfolding run1 by (simp add: cold_state_def)
  have k1: "calls_of (script demo_lib demo_env cold_state (Some ?a)) = [(qa_chain demo_retriever, ?a)]"
    using a by (simp add: calls_of_script_ok [OF u] st1)
  have c2: "cached_load_vector_store demo_lib demo_env ((environ ?S1)(api_key \<mapsto> ustr ''k''))
              (cache ?S1) = (Inr demo_retriever, [], Some demo_retriever)"
    by (simp add: cached_load_hit)
  note st2 = startup_ok [OF pc demo_secrets demo_key c2 demo_llm]
  note run2 = script_page_run [OF st2 page_top_ok [OF u] new_query_ok [OF u b demo_chain r]]
  have f2: "final (script demo_lib demo_env ?S1 (Some ?b)) = ?S2"
    unfolding run2 by simp
  have k2: "calls_of (script demo_lib demo_env ?S1 (Some ?b)) = [(qa_chain demo_retriever, ?b)]"
    using b by (simp add: calls_of_script_ok [OF u] st2)
  have m: "chain_memory (qa_chain demo_retriever)
     = \<lparr>mem_llm = gemini_llm, memory_key = ustr ''chat_history'',
        return_messages = True, mem_output_key = ustr ''answer''\<rparr>"
    by (simp add: qa_chain_def memory_def)
  have s: "session demo_lib demo_env cold_state [Some ?a, Some ?b] =
             [script demo_lib demo_env cold_state (Some ?a), script demo_lib demo_env ?S1 (Some ?b)]"
    by (simp add: f1)
  show ?thesis
    by (simp only: s list.map f1 f2 k1 k2 m simp_thms)
qed

text \<open>Facts about the sample framework whose \<open>st.code\<close> raises.\<close>

lemma code_fails_startup:
  assumes "cache S = Some r"
  shows "startup code_fails_lib demo_env S =
           Inr (r, [page_config, SetEnviron api_key (ustr ''k'')] @ [] @ [NewLLM gemini_llm],
                S\<lparr>environ := (environ S)(api_key \<mapsto> ustr ''k''), cache := Some r\<rparr>)"
proof (rule startup_ok [OF _ demo_secrets demo_key])
  show "st_call code_fails_lib page_config = None"
    by (simp add: code_fails_lib_def page_config_def)
  show "cached_load_vector_store code_fails_lib demo_env ((environ S)(api_key \<mapsto> ustr ''k'')) (cache S)
          = (Inr r, [], Some r)"
    by (simp add: assms cached_load_hit)
  show "ChatGoogleGenerativeAI_init code_fails_lib demo_env ((environ S)(api_key \<mapsto> ustr ''k''))
          gemini_llm = None"
    by (simp add: code_fails_lib_def demo_lib_def)
qed

lemma code_fails_page_top:
  "page_top code_fails_lib (Some [(ustr ''a'', ustr ''See the handbook.'')]) =
     (None,
      page_title @ [chat_input] @ replay [(ustr ''a'', ustr ''See the handbook.'')],
      Some [(ustr ''a'', ustr ''See the handbook.'')])"
  by (simp add: page_top_def page_title_def chat_input_def say_user_def say_assistant_def
        st_with_def code_fails_lib_def user_message_def assistant_message_def)

lemma code_fails_say_user:
  "say_user code_fails_lib q = (None, user_message q)"
  by (simp add: say_user_def st_with_def code_fails_lib_def user_message_def)

lemma code_fails_try_body:
  "try_body code_fails_lib demo_env e (qa_chain demo_retriever) h q =
     (Inl (Exception (ustr ''StreamlitAPIException'') (ustr ''Values of the handbook...'')),
      [Spinner thinking [CallChain (qa_chain demo_retriever) q],
       assistant_message (ustr ''See the handbook.''),
       Expander sources_label False
         [StMarkdown (ustr ''**Unknown '' @ [8594] @ ustr ''** `N/A`''),
          StCode (ustr ''Values of the handbook...'') (ustr ''markdown'')]])"
  by (simp add: try_body_def code_fails_lib_def demo_chain say_assistant_def st_with_def
        demo_sources assistant_message_def)

subsection \<open>The history after a failed query\<close>

text \<open>
  Claim C5. For a submitted query on a run that has reached the chat page: when the
  body of the \<open>try\<close> ends with an exception, caught or not, the history stored after
  the run is the list the query started with (the stored list, or the empty list that
  lines 115-116 store when there was none), so the next run replays the same
  conversation, without the failed query. This holds in particular when the chain has
  answered and displaying the answer or the sources raises. The history differs from
  that list only if the chain returned an answer and the answer and the sources
  expander were displayed without an exception: then the run completed, these two are
  the last elements displayed, and the history has grown by exactly the pair of this
  query and this answer.
\<close>

theorem failed_query_keeps_history:
  assumes "startup L E S = Inr (r, evs, S')"
      and "page_top L (chat_history S) = (None, evs2, ch')"
      and "q \<noteq> []"
  shows "(\<forall>x evs3. try_body L E (environ S') (qa_chain r) (init_history (chat_history S)) q
                     = (Inl x, evs3) \<longrightarrow>
            chat_history (final (script L E S (Some q))) = Some (init_history (chat_history S))
            \<and> replay (init_history (chat_history (final (script L E S (Some q)))))
                  = replay (init_history (chat_history S)))
       \<and> (\<forall>result response x a y d.
            chain_call L E (environ S') (qa_chain r) q = Inr result
            \<and> answer result = Some response
            \<and> say_assistant L response = (x, a)
            \<and> st_with L (Expander sources_label False)
                  (show_sources (case source_documents result of None \<Rightarrow> [] | Some ds \<Rightarrow> ds))
                = (y, d)
            \<and> (x \<noteq> None \<or> y \<noteq> None) \<longrightarrow>
            chat_history (final (script L E S (Some q))) = Some (init_history (chat_history S)))
       \<and> (chat_history (final (script L E S (Some q))) \<noteq> Some (init_history (chat_history S)) \<longrightarrow>
            (\<exists>result response before.
               chain_call L E (environ S') (qa_chain r) q = Inr result
               \<and> answer result = Some response
               \<and> say_assistant L response = (None, assistant_message response)
               \<and> st_with L (Expander sources_label False)
                     (show_sources (case source_documents result of None \<Rightarrow> [] | Some ds \<Rightarrow> ds))
                   = (None, Expander sources_label False
                        (show_sources (case source_documents result of None \<Rightarrow> [] | Some ds \<Rightarrow> ds)))
               \<and> outcome (script L E S (Some q)) = Completed
               \<and> trace (script L E S (Some q)) =
                     before @ [assistant_message response,
                               Expander sources_label False
                                 (show_sources (case source_documents result of
                                                  None \<Rightarrow> [] | Some ds \<Rightarrow> ds))]
               \<and> chat_history (final (script L E S (Some q))) =
                     Some (init_history (chat_history S) @ [(q, response)])))"
proof -
  let ?h = "init_history (chat_history S)"
  let ?run = "script L E S (Some q)"
  let ?P = "\<lambda>result response.
      say_assistant L response = (None, assistant_message response)
      \<and> st_with L (Expander sources_label False)
            (show_sources (case source_documents result of None \<Rightarrow> [] | Some ds \<Rightarrow> ds))
          = (None, Expander sources_label False
               (show_sources (case source_documents result of None \<Rightarrow> [] | Some ds \<Rightarrow> ds)))"
  have kept: "chat_history (final ?run) = Some ?h"
    if "new_query L E (environ S') (qa_chain r) ?h (Some q) = (out, evs3, ?h)" for out evs3
    by (simp add: script_page_run [OF assms(1,2) that])
  show ?thesis
  proof (cases rule: new_query_cases [of "Some q" L E "environ S'" "qa_chain r" ?h])
    case no_query
    with assms(3) show ?thesis by simp
  next
    case (user_failed q' x u)
    from kept [OF user_failed(6)] show ?thesis by simp
  next
    case (caught q' x evs3)
    from kept [OF caught(9)] show ?thesis by simp
  next
    case (handler_failed q' x evs3 x' made)
    from kept [OF handler_failed(10)] show ?thesis by simp
  next
    case (uncaught q' x evs3)
    from kept [OF uncaught(8)] show ?thesis by simp
  next
    case (answered q' result response)
    then have q': "q' = q" by simp
    let ?ex = "Expander sources_label False
                 (show_sources (case source_documents result of None \<Rightarrow> [] | Some ds \<Rightarrow> ds))"
    note run = script_page_run [OF assms(1,2) answered(9)]
    have t: "trace ?run =
            (evs @ evs2 @ [user_message q, Spinner thinking [CallChain (qa_chain r) q]])
            @ [assistant_message response, ?ex]"
      by (simp add: run q')
    have 1: "\<forall>x evs3. try_body L E (environ S') (qa_chain r) ?h q = (Inl x, evs3) \<longrightarrow>
            chat_history (final ?run) = Some ?h
            \<and> replay (init_history (chat_history (final ?run))) = replay ?h"
      using try_body_cases [of L E "environ S'" "qa_chain r" ?h q] answered(4-8) q'
      by (auto simp add: try_body_def)
    have 2: "\<forall>result' response' x a y d.
            chain_call L E (environ S') (qa_chain r) q = Inr result'
            \<and> answer result' = Some response'
            \<and> say_assistant L response' = (x, a)
            \<and> st_with L (Expander sources_label False)
                  (show_sources (case source_documents result' of None \<Rightarrow> [] | Some ds \<Rightarrow> ds))
                = (y, d)
            \<and> (x \<noteq> None \<or> y \<noteq> None) \<longrightarrow>
            chat_history (final ?run) = Some ?h"
      using answered(5-8) q' by auto
    have 3: "\<exists>result response before.
               chain_call L E (environ S') (qa_chain r) q = Inr result
               \<and> answer result = Some response
               \<and> say_assistant L response = (None, assistant_message response)
               \<and> st_with L (Expander sources_label False)
                     (show_sources (case source_documents result of None \<Rightarrow> [] | Some ds \<Rightarrow> ds))
                   = (None, Expander sources_label False
                        (show_sources (case source_documents result of None \<Rightarrow> [] | Some ds \<Rightarrow> ds)))
               \<and> outcome ?run = Completed
               \<and> trace ?run =
                     before @ [assistant_message response,
                               Expander sources_label False
                                 (show_sources (case source_documents result of
                                                  None \<Rightarrow> [] | Some ds \<Rightarrow> ds))]
               \<and> chat_history (final ?run) = Some (?h @ [(q, response)])"
      apply (rule exI [of _ result], rule exI [of _ response])
      apply (rule exI [of _ "evs @ evs2 @ [user_message q, Spinner thinking [CallChain (qa_chain r) q]]"])
      using answered(5-8) q' t by (simp add: run)
    from 1 2 3 show ?thesis by (intro conjI impI)
  qed
qed

theorem failed_query_keeps_history_witness:
  "chat_history chatted_state = Some [(ustr ''a'', ustr ''See the handbook.'')]
   \<and> fst (try_body code_fails_lib demo_env ((environ chatted_state)(api_key \<mapsto> ustr ''k''))
             (qa_chain demo_retriever) (init_history (chat_history chatted_state)) (ustr ''hi''))
       = Inl (Exception (ustr ''StreamlitAPIException'') (ustr ''Values of the handbook...''))
   \<and> chat_history (final (script code_fails_lib demo_env chatted_state (Some (ustr ''hi''))))
       = Some [(ustr ''a'', ustr ''See the handbook.'')]"
proof -
  have c: "cache chatted_state = Some demo_retriever"
    and h: "chat_history chatted_state = Some [(ustr ''a'', ustr ''See the handbook.'')]"
    by (simp_all add: chatted_state_def)
  note st = code_fails_startup [OF c]
  have pt: "page_top code_fails_lib (chat_history chatted_state) =
     (None, page_title @ [chat_input] @ replay [(ustr ''a'', ustr ''See the handbook.'')],
      Some [(ustr ''a'', ustr ''See the handbook.'')])"
    by (simp only: h code_fails_page_top)
  note t = failed_query_keeps_history [OF st pt demo_query, THEN conjunct1, THEN spec, THEN spec,
      THEN mp, THEN conjunct1]
  have e: "environ (chatted_state\<lparr>environ := (environ chatted_state)(api_key \<mapsto> ustr ''k''),
                                  cache := Some demo_retriever\<rparr>)
           = (environ chatted_state)(api_key \<mapsto> ustr ''k'')"
    by simp
  have "chat_history (final (script code_fails_lib demo_env chatted_state (Some (ustr ''hi''))))
          = Some (init_history (chat_history chatted_state))"
    by (rule t) (simp only: e code_fails_try_body)
  then show ?thesis
    by (simp add: h code_fails_try_body)
qed

lemma errors_calls_cases:
  "(errors_of (script L E S uq) = [] \<or>
    (errors_of (script L E S uq) = [key_missing]
       \<and> (\<exists>secrets env1. st_secrets E (environ S) = Inr (secrets, env1) \<and> secrets api_key = None)) \<or>
    (errors_of (script L E S uq) = [generic_error]
       \<and> (\<exists>r evs S' q x evs3.
             startup L E S = Inr (r, evs, S')
             \<and> uq = Some q \<and> q \<noteq> []
             \<and> try_body L E (environ S') (qa_chain r) (init_history (chat_history S)) q
                 = (Inl x, evs3)
             \<and> isinstance_Exception x)))
   \<and> length (calls_of (script L E S uq)) \<le> 1"
proof (cases rule: script_cases [of L E S uq])
  case (ended r)
  with startup_ended [OF ended(1)] show ?thesis by auto
next
  case (page_failed r evs S' x evs2 ch')
  note q1 = startup_quiet [OF page_failed(1)] and q2 = page_top_quiet [OF page_failed(2)]
  have "errors_of (script L E S uq) = []"
    by (simp add: page_failed(3) errors_of_def q1 [THEN conjunct1] q2 [THEN conjunct1])
  moreover have "calls_of (script L E S uq) = []"
    by (simp add: page_failed(3) calls_of_def q1 [THEN conjunct2, THEN conjunct1]
          q2 [THEN conjunct2, THEN conjunct1])
  ultimately show ?thesis by simp
next
  case (page r evs S' out evs3 h')
  note c = page_run_reads(1) [OF page(1) page(4)] and e = page_run_reads(2) [OF page(1) page(4)]
  show ?thesis
  proof (cases rule: new_query_cases [of uq L E "environ S'" "qa_chain r" "init_history (chat_history S)"])
    case no_query
    with page(3) have "evs3 = []" by simp
    then show ?thesis by (simp add: c e)
  next
    case (user_failed q x u)
    with page(3) have "evs3 = [u]" by simp
    with user_failed(4,5) show ?thesis by (simp add: c e)
  next
    case (answered q result response)
    with page(3) have "evs3 =
        [user_message q, Spinner thinking [CallChain (qa_chain r) q], assistant_message response,
         Expander sources_label False
           (show_sources (case source_documents result of None \<Rightarrow> [] | Some ds \<Rightarrow> ds))]"
      by simp
    then show ?thesis
      by (simp add: c e show_sources_quiet user_message_def assistant_message_def)
  next
    case (caught q x evs')
    with page(3) have v: "evs3 = user_message q # evs' @ [StError generic_error, StException x]"
      by simp
    have "errors_of (script L E S uq) = [generic_error]"
      by (simp add: e v caught(7) user_message_def)
    moreover have "length (calls_of (script L E S uq)) \<le> 1"
      using caught(8) by (auto simp add: c v user_message_def simp del: concat_eq_Nil_conv)
    moreover have "\<exists>r evs S' q x evs3.
             startup L E S = Inr (r, evs, S')
             \<and> uq = Some q \<and> q \<noteq> []
             \<and> try_body L E (environ S') (qa_chain r) (init_history (chat_history S)) q
                 = (Inl x, evs3)
             \<and> isinstance_Exception x"
      using page(1) caught(1,2,4,5) by blast
    ultimately show ?thesis by simp
  next
    case (handler_failed q x evs' x' made)
    with page(3) have v: "evs3 = user_message q # evs' @ made"
      by simp
    have "errors_of (script L E S uq) = [generic_error]"
      using handler_failed(7) by (auto simp add: e v handler_failed(8) user_message_def)
    moreover have "length (calls_of (script L E S uq)) \<le> 1"
      using handler_failed(7,9) by (auto simp add: c v user_message_def simp del: concat_eq_Nil_conv)
    moreover have "\<exists>r evs S' q x evs3.
             startup L E S = Inr (r, evs, S')
             \<and> uq = Some q \<and> q \<noteq> []
             \<and> try_body L E (environ S') (qa_chain r) (init_history (chat_history S)) q
                 = (Inl x, evs3)
             \<and> isinstance_Exception x"
      using page(1) handler_failed(1,2,4,5) by blast
    ultimately show ?thesis by simp
  next
    case (uncaught q x evs')
    with page(3) have v: "evs3 = user_message q # evs'"
      by simp
    have "errors_of (script L E S uq) = []"
      by (simp add: e v uncaught(6) user_message_def)
    moreover have "length (calls_of (script L E S uq)) \<le> 1"
      using uncaught(7) by (auto simp add: c v user_message_def simp del: concat_eq_Nil_conv)
    ultimately show ?thesis by simp
  qed
qed

text \<open>The body of the \<open>try\<close> raises what the display of the answer or of the sources raises.\<close>

lemma try_body_render_raises:
  assumes "st_call L (Spinner thinking []) = None"
      and "chain_call L E e qa q = Inr result" and "answer result = Some response"
      and "say_assistant L response = (x, a)"
      and "st_with L (Expander sources_label False)
             (show_sources (case source_documents result of None \<Rightarrow> [] | Some ds \<Rightarrow> ds)) = (y, d)"
  shows "x = Some e1 \<Longrightarrow> fst (try_body L E e qa h q) = Inl e1"
    and "x = None \<Longrightarrow> y = Some e2 \<Longrightarrow> fst (try_body L E e qa h q) = Inl e2"
  using assms by (simp_all add: try_body_def)

lemma interrupt_ui: "st_call interrupt_lib ev = None"
  by (simp add: interrupt_lib_def demo_lib_def)

subsection \<open>Error handling\<close>

text \<open>
  Claim C1, as stated, fails on the script in two ways. A run whose secrets lack the
  key displays an error although no query was processed and no exception was raised:
  the guard of lines 20-24 is error handling outside the \<open>try\<close>. And when the chain
  raises an exception that is not an instance of \<open>Exception\<close>, no message is displayed:
  the exception leaves the script.
\<close>

theorem other_error_paths:
  "errors_of (script demo_lib no_key_env cold_state None) = [key_missing]
   \<and> outcome (script interrupt_lib demo_env demo_state (Some (ustr ''hi'')))
       = Uncaught (BaseException (ustr ''KeyboardInterrupt'') [])
   \<and> errors_of (script interrupt_lib demo_env demo_state (Some (ustr ''hi''))) = []"
proof -
  let ?env = "(environ demo_state)(api_key \<mapsto> ustr ''k'')"
  let ?x = "BaseException (ustr ''KeyboardInterrupt'') []"
  let ?S' = "demo_state\<lparr>environ := ?env, cache := Some demo_retriever\<rparr>"
  have "startup demo_lib no_key_env cold_state =
          Inl \<lparr>outcome = Stopped, trace = [page_config, StError key_missing, StStop],
               final = cold_state\<lparr>environ := environ cold_state\<rparr>\<rparr>"
    by (simp add: startup_def demo_ui no_key_env_def)
  then have 1: "errors_of (script demo_lib no_key_env cold_state None) = [key_missing]"
    by (simp add: script_ended errors_of_def page_config_def)
  have u: "\<forall>ev. st_call interrupt_lib ev = None"
    by (simp add: interrupt_ui)
  have c: "cached_load_vector_store interrupt_lib demo_env ?env (cache demo_state)
             = (Inr demo_retriever, [], Some demo_retriever)"
    by (simp add: demo_state_def cached_load_hit)
  have l: "ChatGoogleGenerativeAI_init interrupt_lib demo_env ?env gemini_llm = None"
    by (simp add: interrupt_lib_def demo_lib_def)
  note st = startup_ok [OF interrupt_ui demo_secrets demo_key c l]
  have n: "new_query interrupt_lib demo_env (environ ?S') (qa_chain demo_retriever)
             (init_history (chat_history demo_state)) (Some (ustr ''hi'')) =
           (Uncaught ?x,
            [user_message (ustr ''hi''),
             Spinner thinking [CallChain (qa_chain demo_retriever) (ustr ''hi'')]],
            init_history (chat_history demo_state))"
    using demo_query
    by (simp add: new_query_def say_user_ok [OF u] try_body_def interrupt_ui)
       (simp add: interrupt_lib_def)
  note run = script_page_run [OF st page_top_ok [OF u] n]
  have 2: "outcome (script interrupt_lib demo_env demo_state (Some (ustr ''hi''))) = Uncaught ?x"
    by (simp add: run)
  have 3: "errors_of (script interrupt_lib demo_env demo_state (Some (ustr ''hi''))) = []"
    by (simp add: run errors_of_def page_config_def replay_quiet page_title_def chat_input_def
          user_message_def)
  from 1 2 3 show ?thesis by simp
qed

text \<open>
  Claim C1, amended. The script handles errors in two places. When the secrets can be
  read and do not hold the key, it displays the key error and stops. For a submitted
  query, when the body of the \<open>try\<close> raises an instance of \<open>Exception\<close>, the \<open>except\<close>
  displays the generic error message and the exception, after everything displayed so
  far, and the run completes; the body of the \<open>try\<close> is the chain call, the lookup of the
  answer and the display of the answer and of the sources, so an exception of these
  displays is caught as well. An exception of the body that is not an instance of
  \<open>Exception\<close> leaves the script with no message. No other error message is ever
  displayed; an exception raised while the vector store is built or the language model
  is created leaves the script with no message; and the chain is called at most once
  in a run, so nothing is retried.
\<close>

theorem error_handling:
  "(\<forall>secrets env1.
      st_call L page_config = None
      \<and> st_secrets E (environ S) = Inr (secrets, env1) \<and> secrets api_key = None
      \<and> st_call L (StError key_missing) = None \<longrightarrow>
      outcome (script L E S uq) = Stopped
      \<and> trace (script L E S uq) = [page_config, StError key_missing, StStop])
   \<and> (\<forall>r evs S' evs2 ch' q x evs3.
        startup L E S = Inr (r, evs, S')
        \<and> page_top L (chat_history S) = (None, evs2, ch')
        \<and> uq = Some q \<and> q \<noteq> []
        \<and> say_user L q = (None, user_message q)
        \<and> try_body L E (environ S') (qa_chain r) (init_history (chat_history S)) q
            = (Inl x, evs3) \<longrightarrow>
        (isinstance_Exception x
           \<and> perform L [StError generic_error, StException x]
               = (None, [StError generic_error, StException x]) \<longrightarrow>
           outcome (script L E S uq) = Completed
           \<and> errors_of (script L E S uq) = [generic_error]
           \<and> trace (script L E S uq) =
                 evs @ evs2 @ user_message q # evs3 @ [StError generic_error, StException x])
        \<and> (\<not> isinstance_Exception x \<longrightarrow>
           outcome (script L E S uq) = Uncaught x \<and> errors_of (script L E S uq) = []))
   \<and> (\<forall>e qa h q result response x a y d e'.
        st_call L (Spinner thinking []) = None
        \<and> chain_call L E e qa q = Inr result \<and> answer result = Some response
        \<and> say_assistant L response = (x, a)
        \<and> st_with L (Expander sources_label False)
              (show_sources (case source_documents result of None \<Rightarrow> [] | Some ds \<Rightarrow> ds))
            = (y, d)
        \<and> (x = Some e' \<or> (x = None \<and> y = Some e')) \<longrightarrow>
        fst (try_body L E e qa h q) = Inl e')
   \<and> (errors_of (script L E S uq) = []
       \<or> (errors_of (script L E S uq) = [key_missing]
           \<and> (\<exists>secrets env1. st_secrets E (environ S) = Inr (secrets, env1)
                             \<and> secrets api_key = None))
       \<or> (errors_of (script L E S uq) = [generic_error]
           \<and> (\<exists>r evs S' q x evs3.
                 startup L E S = Inr (r, evs, S')
                 \<and> uq = Some q \<and> q \<noteq> []
                 \<and> try_body L E (environ S') (qa_chain r) (init_history (chat_history S)) q
                     = (Inl x, evs3)
                 \<and> isinstance_Exception x)))
   \<and> (\<forall>secrets env1 key x evs c.
        st_call L page_config = None
        \<and> st_secrets E (environ S) = Inr (secrets, env1)
        \<and> secrets api_key = Some (PyStr key)
        \<and> cached_load_vector_store L E (env1(api_key \<mapsto> key)) (cache S) = (Inl x, evs, c)
        \<longrightarrow> outcome (script L E S uq) = Uncaught x \<and> errors_of (script L E S uq) = [])
   \<and> (\<forall>secrets env1 key r evs c x.
        st_call L page_config = None
        \<and> st_secrets E (environ S) = Inr (secrets, env1)
        \<and> secrets api_key = Some (PyStr key)
        \<and> cached_load_vector_store L E (env1(api_key \<mapsto> key)) (cache S) = (Inr r, evs, c)
        \<and> ChatGoogleGenerativeAI_init L E (env1(api_key \<mapsto> key)) gemini_llm = Some x
        \<longrightarrow> outcome (script L E S uq) = Uncaught x \<and> errors_of (script L E S uq) = [])
   \<and> length (calls_of (script L E S uq)) \<le> 1"
proof -
  let ?run = "script L E S uq"
  let ?h = "init_history (chat_history S)"
  note ec = errors_calls_cases [of L E S uq]
  have guard: "\<forall>secrets env1.
      st_call L page_config = None
      \<and> st_secrets E (environ S) = Inr (secrets, env1) \<and> secrets api_key = None
      \<and> st_call L (StError key_missing) = None \<longrightarrow>
      outcome ?run = Stopped \<and> trace ?run = [page_config, StError key_missing, StStop]"
    by (simp add: script_def startup_def)
  have catch: "\<forall>r evs S' evs2 ch' q x evs3.
        startup L E S = Inr (r, evs, S')
        \<and> page_top L (chat_history S) = (None, evs2, ch')
        \<and> uq = Some q \<and> q \<noteq> []
        \<and> say_user L q = (None, user_message q)
        \<and> try_body L E (environ S') (qa_chain r) ?h q = (Inl x, evs3) \<longrightarrow>
        (isinstance_Exception x
           \<and> perform L [StError generic_error, StException x]
               = (None, [StError generic_error, StException x]) \<longrightarrow>
           outcome ?run = Completed
           \<and> errors_of ?run = [generic_error]
           \<and> trace ?run = evs @ evs2 @ user_message q # evs3 @ [StError generic_error, StException x])
        \<and> (\<not> isinstance_Exception x \<longrightarrow>
           outcome ?run = Uncaught x \<and> errors_of ?run = [])"
  proof (intro allI impI, elim conjE)
    fix r evs S' evs2 ch' q x evs3
    assume st: "startup L E S = Inr (r, evs, S')"
      and pt: "page_top L (chat_history S) = (None, evs2, ch')"
      and q: "uq = Some q" "q \<noteq> []"
      and su: "say_user L q = (None, user_message q)"
      and tb: "try_body L E (environ S') (qa_chain r) ?h q = (Inl x, evs3)"
    from page_top_None [OF pt]
    have e2: "evs2 = page_title @ [chat_input] @ replay ?h" by simp
    have q3: "concat (map shown_errors evs3) = []"
      using tb by (cases rule: try_body_cases [of L E "environ S'" "qa_chain r" ?h q]) simp_all
    show "(isinstance_Exception x
           \<and> perform L [StError generic_error, StException x]
               = (None, [StError generic_error, StException x]) \<longrightarrow>
           outcome ?run = Completed
           \<and> errors_of ?run = [generic_error]
           \<and> trace ?run = evs @ evs2 @ user_message q # evs3 @ [StError generic_error, StException x])
        \<and> (\<not> isinstance_Exception x \<longrightarrow>
           outcome ?run = Uncaught x \<and> errors_of ?run = [])"
    proof (intro conjI impI; (elim conjE)?)
      assume i: "isinstance_Exception x"
        and p: "perform L [StError generic_error, StException x]
                  = (None, [StError generic_error, StException x])"
      have nq: "new_query L E (environ S') (qa_chain r) ?h uq =
                 (Completed, user_message q # evs3 @ [StError generic_error, StException x], ?h)"
        using q(2) i by (simp add: new_query_def q(1) su tb p del: perform.simps)
      note run = script_page_run [OF st pt nq]
      have run': "?run = \<lparr>outcome = Completed,
          trace = evs @ (page_title @ [chat_input] @ replay ?h)
                    @ (user_message q # evs3 @ [StError generic_error, StException x]),
          final = S'\<lparr>chat_history := Some ?h\<rparr>\<rparr>"
        by (simp only: run e2)
      show "outcome ?run = Completed"
        by (simp add: run)
      show "trace ?run = evs @ evs2 @ user_message q # evs3 @ [StError generic_error, StException x]"
        by (simp add: run)
      show "errors_of ?run = [generic_error]"
        by (simp add: page_run_reads(2) [OF st run'] q3 user_message_def)
    next
      assume i: "\<not> isinstance_Exception x"
      have nq: "new_query L E (environ S') (qa_chain r) ?h uq = (Uncaught x, user_message q # evs3, ?h)"
        using q(2) i by (simp add: new_query_def q(1) su tb)
      note run = script_page_run [OF st pt nq]
      have run': "?run = \<lparr>outcome = Uncaught x,
          trace = evs @ (page_title @ [chat_input] @ replay ?h) @ (user_message q # evs3),
          final = S'\<lparr>chat_history := Some ?h\<rparr>\<rparr>"
        by (simp only: run e2)
      show "outcome ?run = Uncaught x"
        by (simp add: run)
      show "errors_of ?run = []"
        by (simp add: page_run_reads(2) [OF st run'] q3 user_message_def)
    qed
  qed
  have reach: "\<forall>e qa h q result response x a y d e'.
        st_call L (Spinner thinking []) = None
        \<and> chain_call L E e qa q = Inr result \<and> answer result = Some response
        \<and> say_assistant L response = (x, a)
        \<and> st_with L (Expander sources_label False)
              (show_sources (case source_documents result of None \<Rightarrow> [] | Some ds \<Rightarrow> ds))
            = (y, d)
        \<and> (x = Some e' \<or> (x = None \<and> y = Some e')) \<longrightarrow>
        fst (try_body L E e qa h q) = Inl e'"
    by (auto simp add: try_body_def)
  have sole: "errors_of ?run = []
       \<or> (errors_of ?run = [key_missing]
           \<and> (\<exists>secrets env1. st_secrets E (environ S) = Inr (secrets, env1)
                             \<and> secrets api_key = None))
       \<or> (errors_of ?run = [generic_error]
           \<and> (\<exists>r evs S' q x evs3.
                 startup L E S = Inr (r, evs, S')
                 \<and> uq = Some q \<and> q \<noteq> []
                 \<and> try_body L E (environ S') (qa_chain r) ?h q = (Inl x, evs3)
                 \<and> isinstance_Exception x))"
    using ec by (rule conjunct1)
  have load: "\<forall>secrets env1 key x evs c.
        st_call L page_config = None
        \<and> st_secrets E (environ S) = Inr (secrets, env1)
        \<and> secrets api_key = Some (PyStr key)
        \<and> cached_load_vector_store L E (env1(api_key \<mapsto> key)) (cache S) = (Inl x, evs, c)
        \<longrightarrow> outcome ?run = Uncaught x \<and> errors_of ?run = []"
  proof (intro allI impI, elim conjE)
    fix secrets env1 key x evs c
    assume h: "st_call L page_config = None" "st_secrets E (environ S) = Inr (secrets, env1)"
      "secrets api_key = Some (PyStr key)"
      "cached_load_vector_store L E (env1(api_key \<mapsto> key)) (cache S) = (Inl x, evs, c)"
    show "outcome ?run = Uncaught x \<and> errors_of ?run = []"
      using h
      by (simp add: script_def startup_def errors_of_def page_config_def
            cached_load_quiet [OF h(4)])
  qed
  have llm: "\<forall>secrets env1 key r evs c x.
        st_call L page_config = None
        \<and> st_secrets E (environ S) = Inr (secrets, env1)
        \<and> secrets api_key = Some (PyStr key)
        \<and> cached_load_vector_store L E (env1(api_key \<mapsto> key)) (cache S) = (Inr r, evs, c)
        \<and> ChatGoogleGenerativeAI_init L E (env1(api_key \<mapsto> key)) gemini_llm = Some x
        \<longrightarrow> outcome ?run = Uncaught x \<and> errors_of ?run = []"
  proof (intro allI impI, elim conjE)
    fix secrets env1 key r evs c x
    assume h: "st_call L page_config = None" "st_secrets E (environ S) = Inr (secrets, env1)"
      "secrets api_key = Some (PyStr key)"
      "cached_load_vector_store L E (env1(api_key \<mapsto> key)) (cache S) = (Inr r, evs, c)"
      "ChatGoogleGenerativeAI_init L E (env1(api_key \<mapsto> key)) gemini_llm = Some x"
    show "outcome ?run = Uncaught x \<and> errors_of ?run = []"
      using h
      by (simp add: script_def startup_def errors_of_def page_config_def
            cached_load_quiet [OF h(4)])
  qed
  have once: "length (calls_of ?run) \<le> 1"
    using ec by (rule conjunct2)
  show ?thesis
    by (rule conjI [OF guard conjI [OF catch conjI [OF reach conjI [OF sole
          conjI [OF load conjI [OF llm once]]]]]])
qed

theorem error_handling_witness:
  "outcome (script demo_lib no_key_env cold_state (Some (ustr ''hi''))) = Stopped
   \<and> isinstance_Exception (Exception (ustr ''StreamlitAPIException'') (ustr ''Values of the handbook...''))
   \<and> outcome (script code_fails_lib demo_env chatted_state (Some (ustr ''hi''))) = Completed
   \<and> errors_of (script code_fails_lib demo_env chatted_state (Some (ustr ''hi''))) = [generic_error]"
proof -
  let ?x = "Exception (ustr ''StreamlitAPIException'') (ustr ''Values of the handbook...'')"
  let ?h = "[(ustr ''a'', ustr ''See the handbook.'')]"
  let ?S' = "chatted_state\<lparr>environ := (environ chatted_state)(api_key \<mapsto> ustr ''k''),
                            cache := Some demo_retriever\<rparr>"
  let ?evs3 = "[Spinner thinking [CallChain (qa_chain demo_retriever) (ustr ''hi'')],
       assistant_message (ustr ''See the handbook.''),
       Expander sources_label False
         [StMarkdown (ustr ''**Unknown '' @ [8594] @ ustr ''** `N/A`''),
          StCode (ustr ''Values of the handbook...'') (ustr ''markdown'')]]"
  have p1: "st_call demo_lib page_config = None
      \<and> st_secrets no_key_env (environ cold_state) = Inr (Map.empty, environ cold_state)
      \<and> (Map.empty :: pystr \<rightharpoonup> pyval) api_key = None
      \<and> st_call demo_lib (StError key_missing) = None"
    by (simp add: demo_ui no_key_env_def)
  note t1 = error_handling [of demo_lib no_key_env cold_state "Some (ustr ''hi'')",
      THEN conjunct1, THEN spec, THEN spec, THEN mp, OF p1]
  have c: "cache chatted_state = Some demo_retriever"
    and h: "chat_history chatted_state = Some ?h"
    by (simp_all add: chatted_state_def)
  have p2: "startup code_fails_lib demo_env chatted_state =
              Inr (demo_retriever,
                   [page_config, SetEnviron api_key (ustr ''k'')] @ [] @ [NewLLM gemini_llm], ?S')
      \<and> page_top code_fails_lib (chat_history chatted_state) =
          (None, page_title @ [chat_input] @ replay ?h, Some ?h)
      \<and> Some (ustr ''hi'') = Some (ustr ''hi'') \<and> ustr ''hi'' \<noteq> []
      \<and> say_user code_fails_lib (ustr ''hi'') = (None, user_message (ustr ''hi''))
      \<and> try_body code_fails_lib demo_env (environ ?S') (qa_chain demo_retriever)
            (init_history (chat_history chatted_state)) (ustr ''hi'') = (Inl ?x, ?evs3)"
    using code_fails_startup [OF c] demo_query
    by (simp add: h code_fails_page_top code_fails_say_user code_fails_try_body)
  have p3: "isinstance_Exception ?x
      \<and> perform code_fails_lib [StError generic_error, StException ?x]
          = (None, [StError generic_error, StException ?x])"
    by (simp add: code_fails_lib_def)
  note t2 = error_handling [of code_fails_lib demo_env chatted_state "Some (ustr ''hi'')",
      THEN conjunct2, THEN conjunct1, THEN spec, THEN spec, THEN spec, THEN spec, THEN spec,
      THEN spec, THEN spec, THEN spec, THEN mp, OF p2, THEN conjunct1, THEN mp, OF p3]
  from t1 t2 show ?thesis by simp
qed

lemma page_top_titled:
  assumes "perform L page_title = (None, page_title)"
      and "page_top L ch = (x, evs, ch')"
  shows "ch' = Some (init_history ch)"
  using assms
  by (cases "st_call L chat_input"; cases "replay_run L (init_history ch)")
     (auto simp add: page_top_def)

lemma page_top_history:
  assumes "page_top L ch = (x, evs, ch')"
  shows "ch' = ch \<or> ch' = Some (init_history ch)"
proof -
  obtain y made where p: "perform L page_title = (y, made)"
    by (cases "perform L page_title") auto
  with assms show ?thesis
    by (cases y; cases "st_call L chat_input"; cases "replay_run L (init_history ch)")
       (auto simp add: page_top_def)
qed

subsection \<open>The state the script maintains\<close>

text \<open>
  Claim C4, as stated, fails: a run that answers a query leaves a longer
  \<open>chat_history\<close> than it found. The list is created and extended by the script itself
  (lines 115-116 and 146).
\<close>

theorem script_appends_history:
  "chat_history chatted_state = Some [(ustr ''a'', ustr ''See the handbook.'')]
   \<and> chat_history (final (script demo_lib demo_env chatted_state (Some (ustr ''hi''))))
       = Some [(ustr ''a'', ustr ''See the handbook.''), (ustr ''hi'', ustr ''See the handbook.'')]"
proof -
  let ?env = "(environ chatted_state)(api_key \<mapsto> ustr ''k'')"
  have u: "\<forall>ev. st_call demo_lib ev = None"
    by (simp add: demo_ui)
  have h: "chat_history chatted_state = Some [(ustr ''a'', ustr ''See the handbook.'')]"
    by (simp add: chatted_state_def)
  have c: "cached_load_vector_store demo_lib demo_env ?env (cache chatted_state)
             = (Inr demo_retriever, [], Some demo_retriever)"
    by (simp add: chatted_state_def cached_load_hit)
  have r: "answer \<lparr>answer = Some (ustr ''See the handbook.''), source_documents = Some demo_docs\<rparr>
             = Some (ustr ''See the handbook.'')"
    by simp
  note st = startup_ok [OF demo_ui demo_secrets demo_key c demo_llm]
  note run = script_page_run [OF st page_top_ok [OF u] new_query_ok [OF u demo_query demo_chain r]]
  have "chat_history (final (script demo_lib demo_env chatted_state (Some (ustr ''hi''))))
       = Some [(ustr ''a'', ustr ''See the handbook.''), (ustr ''hi'', ustr ''See the handbook.'')]"
    unfolding run by (simp add: h)
  with h show ?thesis by simp
qed

text \<open>
  Claim C4, amended. The vector index, the embeddings and the chat memory are library
  objects, but the script maintains state of its own, the list \<open>chat_history\<close>. A run
  that has displayed the title and the welcome text leaves a list stored, and when no
  query is submitted this is the stored list or, when none was stored, the empty list.
  A run in which a submitted query is answered and the answer and the sources are
  displayed stores the list extended by the pair of the query and the answer. No run
  changes the list in another way. The script also assigns the key to the environment
  variable \<open>GOOGLE_API_KEY\<close>.
\<close>

theorem script_state:
  "(\<forall>r evs S'.
      startup L E S = Inr (r, evs, S') \<and> perform L page_title = (None, page_title) \<longrightarrow>
      (\<exists>h. chat_history (final (script L E S uq)) = Some h)
      \<and> (\<not> truthy uq \<longrightarrow>
            chat_history (final (script L E S uq)) = Some (init_history (chat_history S))))
   \<and> (\<forall>r evs S' evs2 ch' q result response.
        startup L E S = Inr (r, evs, S')
        \<and> page_top L (chat_history S) = (None, evs2, ch')
        \<and> uq = Some q \<and> q \<noteq> []
        \<and> say_user L q = (None, user_message q)
        \<and> st_call L (Spinner thinking []) = None
        \<and> chain_call L E (environ S') (qa_chain r) q = Inr result
        \<and> answer result = Some response
        \<and> say_assistant L response = (None, assistant_message response)
        \<and> st_with L (Expander sources_label False)
              (show_sources (case source_documents result of None \<Rightarrow> [] | Some ds \<Rightarrow> ds))
            = (None, Expander sources_label False
                 (show_sources (case source_documents result of None \<Rightarrow> [] | Some ds \<Rightarrow> ds)))
        \<longrightarrow> chat_history (final (script L E S uq))
              = Some (init_history (chat_history S) @ [(q, response)]))
   \<and> (chat_history (final (script L E S uq)) = chat_history S
       \<or> chat_history (final (script L E S uq)) = Some (init_history (chat_history S))
       \<or> (\<exists>q response. uq = Some q
             \<and> chat_history (final (script L E S uq))
                 = Some (init_history (chat_history S) @ [(q, response)])))
   \<and> (\<forall>secrets env1 key.
        st_call L page_config = None
        \<and> st_secrets E (environ S) = Inr (secrets, env1)
        \<and> secrets api_key = Some (PyStr key)
        \<longrightarrow> environ (final (script L E S uq)) = env1(api_key \<mapsto> key))"
proof -
  let ?run = "script L E S uq"
  let ?h = "init_history (chat_history S)"
  have init: "\<forall>r evs S'.
      startup L E S = Inr (r, evs, S') \<and> perform L page_title = (None, page_title) \<longrightarrow>
      (\<exists>h. chat_history (final ?run) = Some h)
      \<and> (\<not> truthy uq \<longrightarrow> chat_history (final ?run) = Some ?h)"
  proof (intro allI impI, elim conjE)
    fix r evs S'
    assume st: "startup L E S = Inr (r, evs, S')"
      and pt: "perform L page_title = (None, page_title)"
    show "(\<exists>h. chat_history (final ?run) = Some h)
      \<and> (\<not> truthy uq \<longrightarrow> chat_history (final ?run) = Some ?h)"
    proof (cases rule: script_cases [of L E S uq])
      case (ended r')
      with st show ?thesis by simp
    next
      case (page_failed r' evs' S'' x evs2 ch')
      with page_top_titled [OF pt page_failed(2)] show ?thesis by simp
    next
      case (page r' evs' S'' out evs3 h')
      have "\<not> truthy uq \<longrightarrow> h' = ?h"
        using page(3) by (auto simp add: new_query_def)
      with page(4) show ?thesis by simp
    qed
  qed
  have append: "\<forall>r evs S' evs2 ch' q result response.
        startup L E S = Inr (r, evs, S')
        \<and> page_top L (chat_history S) = (None, evs2, ch')
        \<and> uq = Some q \<and> q \<noteq> []
        \<and> say_user L q = (None, user_message q)
        \<and> st_call L (Spinner thinking []) = None
        \<and> chain_call L E (environ S') (qa_chain r) q = Inr result
        \<and> answer result = Some response
        \<and> say_assistant L response = (None, assistant_message response)
        \<and> st_with L (Expander sources_label False)
              (show_sources (case source_documents result of None \<Rightarrow> [] | Some ds \<Rightarrow> ds))
            = (None, Expander sources_label False
                 (show_sources (case source_documents result of None \<Rightarrow> [] | Some ds \<Rightarrow> ds)))
        \<longrightarrow> chat_history (final ?run) = Some (?h @ [(q, response)])"
  proof (intro allI impI, elim conjE)
    fix r evs S' evs2 ch' q response and result :: chain_result
    let ?ex = "Expander sources_label False
                 (show_sources (case source_documents result of None \<Rightarrow> [] | Some ds \<Rightarrow> ds))"
    assume st: "startup L E S = Inr (r, evs, S')"
      and pt: "page_top L (chat_history S) = (None, evs2, ch')"
      and q: "uq = Some q" "q \<noteq> []"
      and f: "say_user L q = (None, user_message q)"
        "st_call L (Spinner thinking []) = None"
        "chain_call L E (environ S') (qa_chain r) q = Inr result"
        "answer result = Some response"
        "say_assistant L response = (None, assistant_message response)"
      and x: "st_with L (Expander sources_label False)
                (show_sources (case source_documents result of None \<Rightarrow> [] | Some ds \<Rightarrow> ds))
              = (None, ?ex)"
    have nq: "new_query L E (environ S') (qa_chain r) ?h uq =
       (Completed,
        [user_message q, Spinner thinking [CallChain (qa_chain r) q], assistant_message response, ?ex],
        ?h @ [(q, response)])"
      using q(2) by (simp add: new_query_def try_body_def q(1) f x)
    show "chat_history (final ?run) = Some (?h @ [(q, response)])"
      by (simp add: script_page_run [OF st pt nq])
  qed
  have frame: "chat_history (final ?run) = chat_history S
       \<or> chat_history (final ?run) = Some ?h
       \<or> (\<exists>q response. uq = Some q
             \<and> chat_history (final ?run) = Some (?h @ [(q, response)]))"
  proof (cases rule: script_cases [of L E S uq])
    case (ended r)
    with startup_ended [OF ended(1)] show ?thesis by simp
  next
    case (page_failed r evs S' x evs2 ch')
    with page_top_history [OF page_failed(2)] show ?thesis by auto
  next
    case (page r evs S' out evs3 h')
    have "h' = ?h \<or> (\<exists>q response. uq = Some q \<and> h' = ?h @ [(q, response)])"
      using page(3)
      by (cases rule: new_query_cases [of uq L E "environ S'" "qa_chain r" ?h]) auto
    with page(4) show ?thesis by auto
  qed
  have env: "\<forall>secrets env1 key.
        st_call L page_config = None
        \<and> st_secrets E (environ S) = Inr (secrets, env1)
        \<and> secrets api_key = Some (PyStr key)
        \<longrightarrow> environ (final ?run) = env1(api_key \<mapsto> key)"
  proof (intro allI impI, elim conjE)
    fix secrets env1 key
    assume h: "st_call L page_config = None" "st_secrets E (environ S) = Inr (secrets, env1)"
      "secrets api_key = Some (PyStr key)"
    show "environ (final ?run) = env1(api_key \<mapsto> key)"
    proof (cases rule: script_cases [of L E S uq])
      case (ended r)
      from ended(1) h have "environ (final r) = env1(api_key \<mapsto> key)"
        by (auto simp add: startup_def Let_def split: sum.splits prod.splits option.splits)
      with ended(2) show ?thesis by simp
    next
      case (page_failed r evs S' x evs2 ch')
      with startup_page [OF page_failed(1)] h show ?thesis by auto
    next
      case (page r evs S' out evs3 h')
      with startup_page [OF page(1)] h show ?thesis by auto
    qed
  qed
  show ?thesis
    by (rule conjI [OF init conjI [OF append conjI [OF frame env]]])
qed

theorem script_state_witness:
  "chat_history demo_state = None
   \<and> chat_history (final (script demo_lib demo_env demo_state None)) = Some []
   \<and> chat_history (final (script demo_lib demo_env chatted_state (Some (ustr ''again''))))
       = Some [(ustr ''a'', ustr ''See the handbook.''), (ustr ''again'', ustr ''See the handbook.'')]"
proof -
  let ?ans = "ustr ''See the handbook.''"
  let ?ex = "Expander sources_label False (show_sources demo_docs)"
  have u: "\<forall>ev. st_call demo_lib ev = None"
    by (simp add: demo_ui)
  have q: "ustr ''again'' \<noteq> []"
    by (simp add: ustr_def)
  have h0: "chat_history demo_state = None"
    by (simp add: demo_state_def)
  have c0: "cached_load_vector_store demo_lib demo_env ((environ demo_state)(api_key \<mapsto> ustr ''k''))
              (cache demo_state) = (Inr demo_retriever, [], Some demo_retriever)"
    by (simp add: demo_state_def cached_load_hit)
  have p0: "startup demo_lib demo_env demo_state =
              Inr (demo_retriever,
                   [page_config, SetEnviron api_key (ustr ''k'')] @ [] @ [NewLLM gemini_llm],
                   demo_state\<lparr>environ := (environ demo_state)(api_key \<mapsto> ustr ''k''),
                              cache := Some demo_retriever\<rparr>)
            \<and> perform demo_lib page_title = (None, page_title)"
    using startup_ok [OF demo_ui demo_secrets demo_key c0 demo_llm] by (simp add: perform_ok [OF u])
  note t0 = script_state [of demo_lib demo_env demo_state None, THEN conjunct1,
      THEN spec, THEN spec, THEN spec, THEN mp, OF p0, THEN conjunct2, THEN mp]
  have 0: "chat_history (final (script demo_lib demo_env demo_state None)) = Some []"
    using t0 by (simp add: h0)
  have h1: "chat_history chatted_state = Some [(ustr ''a'', ?ans)]"
    by (simp add: chatted_state_def)
  have c1: "cached_load_vector_store demo_lib demo_env ((environ chatted_state)(api_key \<mapsto> ustr ''k''))
              (cache chatted_state) = (Inr demo_retriever, [], Some demo_retriever)"
    by (simp add: chatted_state_def cached_load_hit)
  let ?S' = "chatted_state\<lparr>environ := (environ chatted_state)(api_key \<mapsto> ustr ''k''),
                            cache := Some demo_retriever\<rparr>"
  have a: "answer \<lparr>answer = Some ?ans, source_documents = Some demo_docs\<rparr> = Some ?ans"
    by simp
  have p1: "startup demo_lib demo_env chatted_state =
              Inr (demo_retriever,
                   [page_config, SetEnviron api_key (ustr ''k'')] @ [] @ [NewLLM gemini_llm], ?S')
      \<and> page_top demo_lib (chat_history chatted_state) =
          (None, page_title @ [chat_input] @ replay (init_history (chat_history chatted_state)),
           Some (init_history (chat_history chatted_state)))
      \<and> Some (ustr ''again'') = Some (ustr ''again'') \<and> ustr ''again'' \<noteq> []
      \<and> say_user demo_lib (ustr ''again'') = (None, user_message (ustr ''again''))
      \<and> st_call demo_lib (Spinner thinking []) = None
      \<and> chain_call demo_lib demo_env (environ ?S') (qa_chain demo_retriever) (ustr ''again'')
          = Inr \<lparr>answer = Some ?ans, source_documents = Some demo_docs\<rparr>
      \<and> answer \<lparr>answer = Some ?ans, source_documents = Some demo_docs\<rparr> = Some ?ans
      \<and> say_assistant demo_lib ?ans = (None, assistant_message ?ans)
      \<and> st_with demo_lib (Expander sources_label False)
            (show_sources (case source_documents
                                  \<lparr>answer = Some ?ans, source_documents = Some demo_docs\<rparr> of
                             None \<Rightarrow> [] | Some ds \<Rightarrow> ds))
          = (None, Expander sources_label False
               (show_sources (case source_documents
                                     \<lparr>answer = Some ?ans, source_documents = Some demo_docs\<rparr> of
                                None \<Rightarrow> [] | Some ds \<Rightarrow> ds)))"
    using startup_ok [OF demo_ui demo_secrets demo_key c1 demo_llm] q
    by (simp add: page_top_ok [OF u] say_user_ok [OF u] say_assistant_ok [OF u] st_with_ok [OF u]
          demo_ui demo_chain)
  note t1 = script_state [of demo_lib demo_env chatted_state "Some (ustr ''again'')",
      THEN conjunct2, THEN conjunct1, THEN spec, THEN spec, THEN spec, THEN spec, THEN spec,
      THEN spec, THEN spec, THEN spec, THEN mp, OF p1]
  have 1: "chat_history (final (script demo_lib demo_env chatted_state (Some (ustr ''again''))))
       = Some [(ustr ''a'', ?ans), (ustr ''again'', ?ans)]"
    using t1 by (simp add: h1)
  from h0 0 1 show ?thesis by simp
qed



lemma script_trace_startup:
  assumes "st_call L page_config = None"
      and "st_secrets E (environ S) = Inr (secrets, env1)"
      and "secrets api_key = Some (PyStr key)"
      and "cached_load_vector_store L E (env1(api_key \<mapsto> key)) (cache S) = (res, evs, c)"
  shows "\<exists>after. trace (script L E S uq) = [page_config, SetEnviron api_key key] @ evs @ after"
proof (cases res)
  case (Inl x)
  with assms show ?thesis by (simp add: script_def startup_def)
next
  case (Inr r)
  show ?thesis
  proof (cases "ChatGoogleGenerativeAI_init L E (env1(api_key \<mapsto> key)) gemini_llm")
    case (Some x)
    with assms Inr show ?thesis by (simp add: script_def startup_def)
  next
    case None
    note st = startup_ok [OF assms(1-3) assms(4) [unfolded Inr] None]
    show ?thesis
    proof (cases rule: script_cases [of L E S uq])
      case (ended r')
      with st show ?thesis by simp
    next
      case (page_failed r' evs' S' x evs2 ch')
      with st show ?thesis by simp
    next
      case (page r' evs' S' out evs3 h')
      with st show ?thesis by simp
    qed
  qed
qed

subsection \<open>What a run reads and writes\<close>




text \<open>The guard of lines 20-24 when the secrets can be read.\<close>

lemma key_guard_readable:
  assumes "st_call L page_config = None"
      and "st_secrets E (environ S) = Inr (secrets, env1)"
  shows "secrets api_key = None \<Longrightarrow> st_call L (StError key_missing) = None \<Longrightarrow>
           script L E S uq =
             \<lparr>outcome = Stopped, trace = [page_config, StError key_missing, StStop],
              final = S\<lparr>environ := env1\<rparr>\<rparr>"
    and "secrets api_key = Some (PyStr key) \<Longrightarrow>
           \<exists>rest. trace (script L E S uq) = page_config # SetEnviron api_key key # rest"
proof -
  show "secrets api_key = None \<Longrightarrow> st_call L (StError key_missing) = None \<Longrightarrow>
           script L E S uq =
             \<lparr>outcome = Stopped, trace = [page_config, StError key_missing, StStop],
              final = S\<lparr>environ := env1\<rparr>\<rparr>"
    using assms by (simp add: script_def startup_def)
  assume k: "secrets api_key = Some (PyStr key)"
  obtain res evs c where
    cl: "cached_load_vector_store L E (env1(api_key \<mapsto> key)) (cache S) = (res, evs, c)"
    by (cases "cached_load_vector_store L E (env1(api_key \<mapsto> key)) (cache S)") auto
  from script_trace_startup [OF assms k cl, of uq]
  show "\<exists>rest. trace (script L E S uq) = page_config # SetEnviron api_key key # rest"
    by auto
qed

subsection \<open>The API key\<close>

text \<open>
  Claim C6. When the secrets can be read, the guard does what the claim says
  (\<open>key_guard_readable\<close>): without the entry the run is the page configuration, the
  error and the stop, and with a string entry the assignment to the environment is
  the second call of the run, before any model is constructed. But when there is no
  secrets file, the membership test of line 20 raises: the run ends at line 20 with
  that exception, and neither the key error nor the stop of lines 23-24 is reached.
  And an entry that is not a string makes line 21 raise \<open>TypeError\<close>.
\<close>

theorem missing_secrets_file_raises:
  "script demo_lib no_secrets_env cold_state None =
     \<lparr>outcome = Uncaught (Exception (ustr ''FileNotFoundError'') (ustr ''No secrets files found.'')),
      trace = [page_config], final = cold_state\<rparr>
   \<and> errors_of (script demo_lib no_secrets_env cold_state None) = []
   \<and> outcome (script demo_lib int_key_env cold_state None)
       = Uncaught (Exception (ustr ''TypeError'') (ustr ''str expected, not '' @ ustr ''int''))
   \<and> trace (script demo_lib int_key_env cold_state None) = [page_config]"
proof -
  have 1: "script demo_lib no_secrets_env cold_state None =
     \<lparr>outcome = Uncaught (Exception (ustr ''FileNotFoundError'') (ustr ''No secrets files found.'')),
      trace = [page_config], final = cold_state\<rparr>"
    by (simp add: script_def startup_def demo_ui no_secrets_env_def)
  have 2: "errors_of (script demo_lib no_secrets_env cold_state None) = []"
    by (simp add: 1 errors_of_def page_config_def)
  have 3: "outcome (script demo_lib int_key_env cold_state None)
       = Uncaught (Exception (ustr ''TypeError'') (ustr ''str expected, not '' @ ustr ''int''))"
    by (simp add: script_def startup_def demo_ui int_key_env_def)
  have 4: "trace (script demo_lib int_key_env cold_state None) = [page_config]"
    by (simp add: script_def startup_def demo_ui int_key_env_def)
  from 1 2 3 4 show ?thesis by (intro conjI)
qed

end
